theory Spec2Isabelle
  imports Main
begin

section \<open>JavaScript values and the JSON codec\<close>

text \<open>
  The service moves the theme between three places as JSON text: the Remote Config
  parameter \<^verbatim>\<open>app_theme\<close>, the AsyncStorage slot \<^verbatim>\<open>@theme_cache\<close> and the default
  value handed to \<^verbatim>\<open>setDefaults\<close>. What \<^verbatim>\<open>JSON.parse\<close> returns is typed \<^verbatim>\<open>any\<close>, so the
  values flowing through \<^verbatim>\<open>fetchTheme\<close> are arbitrary JSON values, not only themes.

  Modelled fragment: numbers are the integers (the theme's sizes and spacings), printed in
  plain decimal as \<^verbatim>\<open>JSON.stringify\<close> prints them; fractions, exponents and the non-finite
  doubles are outside the model and the parser rejects their literals. Strings are lists
  of 8-bit characters; an escape \<^verbatim>\<open>\uXXXX\<close> above \<^verbatim>\<open>00ff\<close> is rejected likewise. An object
  is the list of its properties in insertion order; its keys are distinct.
\<close>

datatype jsval =
    JNull
  | JBool bool
  | JNum int
  | JStr string
  | JArr "jsval list"
  | JObj "(string \<times> jsval) list"

subsection \<open>\<^verbatim>\<open>JSON.stringify\<close>\<close>

definition digit_char :: "nat \<Rightarrow> char" where
  "digit_char d = char_of (48 + d)"

fun show_nat :: "nat \<Rightarrow> string" where
  "show_nat n = (if n < 10 then [digit_char n] else show_nat (n div 10) @ [digit_char (n mod 10)])"

declare show_nat.simps [simp del]

definition show_int :: "int \<Rightarrow> string" where
  "show_int i = (if i < 0 then CHR ''-'' # show_nat (nat (- i)) else show_nat (nat i))"

definition hex_char :: "nat \<Rightarrow> char" where
  "hex_char d = (if d < 10 then char_of (48 + d) else char_of (87 + d))"

text \<open>
  The escapes of \<^verbatim>\<open>QuoteJSONString\<close>: the quote \<^verbatim>\<open>0x22\<close>, the backslash \<^verbatim>\<open>0x5C\<close>, the five
  short control escapes, and \<^verbatim>\<open>\u00xx\<close> (lower-case hex) for the other code units below
  \<^verbatim>\<open>0x20\<close>.
\<close>

definition escape_char :: "char \<Rightarrow> string" where
  "escape_char c =
     (if c = CHR 0x22 then [CHR 0x5C, CHR 0x22]
      else if c = CHR 0x5C then [CHR 0x5C, CHR 0x5C]
      else if c = CHR 0x08 then [CHR 0x5C, CHR ''b'']
      else if c = CHR 0x0C then [CHR 0x5C, CHR ''f'']
      else if c = CHR 0x0A then [CHR 0x5C, CHR ''n'']
      else if c = CHR 0x0D then [CHR 0x5C, CHR ''r'']
      else if c = CHR 0x09 then [CHR 0x5C, CHR ''t'']
      else if (of_char c :: nat) < 32 then
        [CHR 0x5C, CHR ''u'', CHR ''0'', CHR ''0'',
         hex_char (of_char c div 16), hex_char (of_char c mod 16)]
      else [c])"

definition quote :: "string \<Rightarrow> string" where
  "quote s = CHR 0x22 # concat (map escape_char s) @ [CHR 0x22]"

fun join_comma :: "string list \<Rightarrow> string" where
  "join_comma [] = []"
| "join_comma [x] = x"
| "join_comma (x # y # ys) = x @ CHR '','' # join_comma (y # ys)"

fun JSON_stringify :: "jsval \<Rightarrow> string" where
  "JSON_stringify JNull = ''null''"
| "JSON_stringify (JBool b) = (if b then ''true'' else ''false'')"
| "JSON_stringify (JNum i) = show_int i"
| "JSON_stringify (JStr s) = quote s"
| "JSON_stringify (JArr vs) = CHR ''['' # join_comma (map JSON_stringify vs) @ '']''"
| "JSON_stringify (JObj kvs) =
     CHR ''{'' # join_comma (map (\<lambda>(k, v). quote k @ CHR '':'' # JSON_stringify v) kvs) @ ''}''"

subsection \<open>\<^verbatim>\<open>JSON.parse\<close>\<close>

definition is_ws :: "char \<Rightarrow> bool" where
  "is_ws c = (c = CHR '' '' \<or> c = CHR 0x09 \<or> c = CHR 0x0A \<or> c = CHR 0x0D)"

definition skip_ws :: "string \<Rightarrow> string" where
  "skip_ws s = dropWhile is_ws s"

definition is_digit :: "char \<Rightarrow> bool" where
  "is_digit c = (48 \<le> (of_char c :: nat) \<and> (of_char c :: nat) \<le> 57)"

definition digit_val :: "char \<Rightarrow> nat" where
  "digit_val c = of_char c - 48"

definition digits_val :: "string \<Rightarrow> nat" where
  "digits_val ds = foldl (\<lambda>a c. 10 * a + digit_val c) 0 ds"

text \<open>The integer part of the JSON number grammar: \<^verbatim>\<open>0\<close>, or a non-zero digit and more digits.\<close>

definition parse_nat :: "string \<Rightarrow> (nat \<times> string) option" where
  "parse_nat s =
     (case s of
        [] \<Rightarrow> None
      | c # cs \<Rightarrow>
          if \<not> is_digit c then None
          else if c = CHR ''0'' then Some (0, cs)
          else Some (digits_val (takeWhile is_digit s), dropWhile is_digit s))"

definition parse_int :: "string \<Rightarrow> (int \<times> string) option" where
  "parse_int s =
     (case s of
        [] \<Rightarrow> None
      | c # cs \<Rightarrow>
          if c = CHR ''-'' then map_option (\<lambda>(n, r). (- int n, r)) (parse_nat cs)
          else map_option (\<lambda>(n, r). (int n, r)) (parse_nat s))"

definition hex_val :: "char \<Rightarrow> nat option" where
  "hex_val c =
     (let n = (of_char c :: nat) in
      if 48 \<le> n \<and> n \<le> 57 then Some (n - 48)
      else if 97 \<le> n \<and> n \<le> 102 then Some (n - 87)
      else if 65 \<le> n \<and> n \<le> 70 then Some (n - 55)
      else None)"

definition unescape_u :: "char \<Rightarrow> char \<Rightarrow> char \<Rightarrow> char \<Rightarrow> char option" where
  "unescape_u a b c d =
     (case (hex_val a, hex_val b, hex_val c, hex_val d) of
        (Some x3, Some x2, Some x1, Some x0) \<Rightarrow>
          if x3 = 0 \<and> x2 = 0 then Some (char_of (16 * x1 + x0)) else None
      | _ \<Rightarrow> None)"

definition unescape_simple :: "char \<Rightarrow> char option" where
  "unescape_simple e =
     (if e = CHR 0x22 then Some (CHR 0x22)
      else if e = CHR 0x5C then Some (CHR 0x5C)
      else if e = CHR ''/'' then Some (CHR ''/'')
      else if e = CHR ''b'' then Some (CHR 0x08)
      else if e = CHR ''f'' then Some (CHR 0x0C)
      else if e = CHR ''n'' then Some (CHR 0x0A)
      else if e = CHR ''r'' then Some (CHR 0x0D)
      else if e = CHR ''t'' then Some (CHR 0x09)
      else None)"

text \<open>
  The characters of a string literal after its opening quote, up to the closing one. A raw
  control character and an unknown escape are syntax errors.
\<close>

fun parse_chars :: "string \<Rightarrow> (string \<times> string) option" where
  "parse_chars [] = None"
| "parse_chars (c # cs) =
     (if c = CHR 0x22 then Some ([], cs)
      else if c = CHR 0x5C then
        (case cs of
           [] \<Rightarrow> None
         | e # cs1 \<Rightarrow>
             if e = CHR ''u'' then
               (case cs1 of
                  a # b # c # d # cs2 \<Rightarrow>
                    (case unescape_u a b c d of
                       None \<Rightarrow> None
                     | Some x \<Rightarrow> map_option (\<lambda>(s, r). (x # s, r)) (parse_chars cs2))
                | _ \<Rightarrow> None)
             else
               (case unescape_simple e of
                  None \<Rightarrow> None
                | Some x \<Rightarrow> map_option (\<lambda>(s, r). (x # s, r)) (parse_chars cs1)))
      else if (of_char c :: nat) < 32 then None
      else map_option (\<lambda>(s, r). (c # s, r)) (parse_chars cs))"

text \<open>
  Defining a property on an object: a key already present keeps its place and takes the
  new value, a new key goes last (a repeated key in JSON text: the last value wins).
\<close>

fun obj_put :: "(string \<times> jsval) list \<Rightarrow> string \<times> jsval \<Rightarrow> (string \<times> jsval) list" where
  "obj_put [] kv = [kv]"
| "obj_put (p # ps) kv = (if fst p = fst kv then (fst p, snd kv) # ps else p # obj_put ps kv)"

text \<open>
  The recursive descent over values, array elements and object members. The first
  argument bounds the number of nested calls; every call consumes a character, so the
  length of the text (plus one) is always enough, and \<open>JSON_parse\<close> starts with that much.
\<close>

fun parse_value :: "nat \<Rightarrow> string \<Rightarrow> (jsval \<times> string) option"
  and parse_elements :: "nat \<Rightarrow> string \<Rightarrow> (jsval list \<times> string) option"
  and parse_members :: "nat \<Rightarrow> string \<Rightarrow> ((string \<times> jsval) list \<times> string) option"
where
  "parse_value 0 s = None"
| "parse_value (Suc n) s =
     (case skip_ws s of
        [] \<Rightarrow> None
      | c # cs \<Rightarrow>
          if c = CHR ''-'' \<or> is_digit c then
            map_option (\<lambda>(i, r). (JNum i, r)) (parse_int (c # cs))
          else if c = CHR 0x22 then
            map_option (\<lambda>(x, r). (JStr x, r)) (parse_chars cs)
          else if c = CHR ''['' then
            (case skip_ws cs of
               [] \<Rightarrow> None
             | d # ds \<Rightarrow>
                 if d = CHR '']'' then Some (JArr [], ds)
                 else map_option (\<lambda>(vs, r). (JArr vs, r)) (parse_elements n (d # ds)))
          else if c = CHR ''{'' then
            (case skip_ws cs of
               [] \<Rightarrow> None
             | d # ds \<Rightarrow>
                 if d = CHR ''}'' then Some (JObj [], ds)
                 else map_option (\<lambda>(ms, r). (JObj (foldl obj_put [] ms), r))
                        (parse_members n (d # ds)))
          else if take 4 (c # cs) = ''null'' then Some (JNull, drop 4 (c # cs))
          else if take 4 (c # cs) = ''true'' then Some (JBool True, drop 4 (c # cs))
          else if take 5 (c # cs) = ''false'' then Some (JBool False, drop 5 (c # cs))
          else None)"
| "parse_elements 0 s = None"
| "parse_elements (Suc n) s =
     (case parse_value n s of
        None \<Rightarrow> None
      | Some (v, r) \<Rightarrow>
          (case skip_ws r of
             [] \<Rightarrow> None
           | c # cs \<Rightarrow>
               if c = CHR '','' then map_option (\<lambda>(vs, r'). (v # vs, r')) (parse_elements n cs)
               else if c = CHR '']'' then Some ([v], cs)
               else None))"
| "parse_members 0 s = None"
| "parse_members (Suc n) s =
     (case skip_ws s of
        [] \<Rightarrow> None
      | q # qs \<Rightarrow>
          if q \<noteq> CHR 0x22 then None
          else
            (case parse_chars qs of
               None \<Rightarrow> None
             | Some (k, r) \<Rightarrow>
                 (case skip_ws r of
                    [] \<Rightarrow> None
                  | c # cs \<Rightarrow>
                      if c \<noteq> CHR '':'' then None
                      else
                        (case parse_value n cs of
                           None \<Rightarrow> None
                         | Some (v, r1) \<Rightarrow>
                             (case skip_ws r1 of
                                [] \<Rightarrow> None
                              | c1 # cs1 \<Rightarrow>
                                  if c1 = CHR '','' then
                                    map_option (\<lambda>(ms, r2). ((k, v) # ms, r2)) (parse_members n cs1)
                                  else if c1 = CHR ''}'' then Some ([(k, v)], cs1)
                                  else None)))))"

text \<open>\<open>None\<close> is the \<^verbatim>\<open>SyntaxError\<close> that \<^verbatim>\<open>JSON.parse\<close> throws.\<close>

definition JSON_parse :: "string \<Rightarrow> jsval option" where
  "JSON_parse s =
     (case parse_value (Suc (length s)) s of
        None \<Rightarrow> None
      | Some (v, r) \<Rightarrow> if skip_ws r = [] then Some v else None)"

text \<open>The representation invariant of a value: the keys of every object are distinct.\<close>

fun wf_json :: "jsval \<Rightarrow> bool" where
  "wf_json (JArr vs) = list_all wf_json vs"
| "wf_json (JObj kvs) = (distinct (map fst kvs) \<and> list_all (\<lambda>kv. wf_json (snd kv)) kvs)"
| "wf_json _ = True"

text \<open>JavaScript's \<^verbatim>\<open>ToBoolean\<close>, as the conditions \<^verbatim>\<open>if (newTheme)\<close> and \<^verbatim>\<open>cachedTheme ? ... : null\<close> use it.\<close>

fun truthy :: "jsval \<Rightarrow> bool" where
  "truthy JNull = False"
| "truthy (JBool b) = b"
| "truthy (JNum i) = (i \<noteq> 0)"
| "truthy (JStr s) = (s \<noteq> [])"
| "truthy (JArr vs) = True"
| "truthy (JObj kvs) = True"

section \<open>The theme schema (\<^verbatim>\<open>src/theme/types.ts\<close>)\<close>

text \<open>
  The interfaces \<^verbatim>\<open>ThemeColors\<close>, \<^verbatim>\<open>ThemeTypography\<close>, \<^verbatim>\<open>ThemeSpacing\<close> and \<^verbatim>\<open>Theme\<close> as
  predicates on a value: every declared property is present and has the declared type.
  TypeScript erases them at run time; no function of the service evaluates them.
\<close>

fun get_prop :: "jsval \<Rightarrow> string \<Rightarrow> jsval option" where
  "get_prop (JObj kvs) k = map_of kvs k"
| "get_prop _ k = None"

definition has_strings :: "jsval \<Rightarrow> string list \<Rightarrow> bool" where
  "has_strings v ks = list_all (\<lambda>k. case get_prop v k of Some (JStr x) \<Rightarrow> True | _ \<Rightarrow> False) ks"

definition has_numbers :: "jsval \<Rightarrow> string list \<Rightarrow> bool" where
  "has_numbers v ks = list_all (\<lambda>k. case get_prop v k of Some (JNum x) \<Rightarrow> True | _ \<Rightarrow> False) ks"

definition is_ThemeColors :: "jsval \<Rightarrow> bool" where
  "is_ThemeColors v =
     has_strings v [''primary'', ''secondary'', ''background'', ''surface'', ''text'',
                    ''textSecondary'', ''error'', ''success'', ''warning'']"

definition is_ThemeTypography :: "jsval \<Rightarrow> bool" where
  "is_ThemeTypography v =
     (has_strings v [''fontFamily''] \<and>
      (case get_prop v ''fontSize'' of
         Some fs \<Rightarrow> has_numbers fs [''small'', ''medium'', ''large'', ''xlarge'']
       | None \<Rightarrow> False) \<and>
      (case get_prop v ''fontWeight'' of
         Some fw \<Rightarrow> has_strings fw [''regular'', ''medium'', ''bold'']
       | None \<Rightarrow> False))"

definition is_ThemeSpacing :: "jsval \<Rightarrow> bool" where
  "is_ThemeSpacing v = has_numbers v [''xs'', ''sm'', ''md'', ''lg'', ''xl'']"

definition is_Theme :: "jsval \<Rightarrow> bool" where
  "is_Theme v =
     (wf_json v \<and>
      (case get_prop v ''colors'' of Some c \<Rightarrow> is_ThemeColors c | None \<Rightarrow> False) \<and>
      (case get_prop v ''typography'' of Some t \<Rightarrow> is_ThemeTypography t | None \<Rightarrow> False) \<and>
      (case get_prop v ''spacing'' of Some sp \<Rightarrow> is_ThemeSpacing sp | None \<Rightarrow> False))"

definition DEFAULT_THEME :: jsval where
  "DEFAULT_THEME =
     JObj
      [(''colors'',
        JObj
         [(''primary'', JStr ''#007AFF''),
          (''secondary'', JStr ''#5856D6''),
          (''background'', JStr ''#FFFFFF''),
          (''surface'', JStr ''#F2F2F7''),
          (''text'', JStr ''#000000''),
          (''textSecondary'', JStr ''#8E8E93''),
          (''error'', JStr ''#FF3B30''),
          (''success'', JStr ''#34C759''),
          (''warning'', JStr ''#FF9500'')]),
       (''typography'',
        JObj
         [(''fontFamily'', JStr ''System''),
          (''fontSize'',
           JObj [(''small'', JNum 12), (''medium'', JNum 16), (''large'', JNum 20),
                 (''xlarge'', JNum 24)]),
          (''fontWeight'',
           JObj [(''regular'', JStr ''400''), (''medium'', JStr ''500''),
                 (''bold'', JStr ''700'')])]),
       (''spacing'',
        JObj [(''xs'', JNum 4), (''sm'', JNum 8), (''md'', JNum 16), (''lg'', JNum 24),
              (''xl'', JNum 32)])]"

section \<open>The collaborators: Remote Config and AsyncStorage\<close>

text \<open>
  A thrown value: an \<^verbatim>\<open>Error\<close> with its message, or anything else. An awaited call settles
  with \<open>Inl\<close> (rejected, thrown) or \<open>Inr\<close> (resolved).
\<close>

datatype js_error = JsError string | NonError

type_synonym 'a outcome = "js_error + 'a"

text \<open>The calls made on the collaborators, in order: the state keeps them as a log.\<close>

datatype call =
    SetConfigSettings nat nat
  | SetDefaults string string
  | FetchAndActivate
  | GetItem string
  | SetItem string string

text \<open>
  The world outside the service, which the service does not control: whether a call on a
  collaborator rejects, and what the Remote Config backend serves. Each is a function of
  the time of the call, counted as the number of collaborator calls made so far.
\<close>

record env =
  setConfigSettings_fault :: "nat \<Rightarrow> js_error option"
  setDefaults_fault :: "nat \<Rightarrow> js_error option"
  fetchAndActivate_fault :: "nat \<Rightarrow> js_error option"
  remote_template :: "nat \<Rightarrow> string \<rightharpoonup> string"
  getItem_fault :: "nat \<Rightarrow> js_error option"
  setItem_fault :: "nat \<Rightarrow> js_error option"

text \<open>
  The state the service acts on: its own flag \<^verbatim>\<open>initialized\<close>, the AsyncStorage slots, and
  the Remote Config client (settings, in-app defaults, activated values).
\<close>

record state =
  initialized :: bool
  storage :: "string \<rightharpoonup> string"
  rc_settings :: "(nat \<times> nat) option"
  rc_defaults :: "string \<rightharpoonup> string"
  rc_active :: "string \<rightharpoonup> string"
  calls :: "call list"

type_synonym 'a action = "state \<Rightarrow> 'a outcome \<times> state"

definition clock :: "state \<Rightarrow> nat" where
  "clock s = length (calls s)"

definition logged :: "call \<Rightarrow> state \<Rightarrow> state" where
  "logged c s = s\<lparr>calls := calls s @ [c]\<rparr>"

text \<open>A call that rejects leaves its collaborator as it was.\<close>

definition setConfigSettings :: "env \<Rightarrow> nat \<Rightarrow> nat \<Rightarrow> unit action" where
  "setConfigSettings e minimumFetchIntervalMillis fetchTimeMillis s =
     (case setConfigSettings_fault e (clock s) of
        Some err \<Rightarrow> (Inl err, logged (SetConfigSettings minimumFetchIntervalMillis fetchTimeMillis) s)
      | None \<Rightarrow>
          (Inr (),
           logged (SetConfigSettings minimumFetchIntervalMillis fetchTimeMillis)
             (s\<lparr>rc_settings := Some (minimumFetchIntervalMillis, fetchTimeMillis)\<rparr>)))"

definition setDefaults :: "env \<Rightarrow> string \<Rightarrow> string \<Rightarrow> unit action" where
  "setDefaults e k v s =
     (case setDefaults_fault e (clock s) of
        Some err \<Rightarrow> (Inl err, logged (SetDefaults k v) s)
      | None \<Rightarrow> (Inr (), logged (SetDefaults k v) (s\<lparr>rc_defaults := [k \<mapsto> v]\<rparr>)))"

definition fetchAndActivate :: "env \<Rightarrow> unit action" where
  "fetchAndActivate e s =
     (case fetchAndActivate_fault e (clock s) of
        Some err \<Rightarrow> (Inl err, logged FetchAndActivate s)
      | None \<Rightarrow> (Inr (), logged FetchAndActivate (s\<lparr>rc_active := remote_template e (clock s)\<rparr>)))"

text \<open>
  \<^verbatim>\<open>getValue(key).asString()\<close>: the activated value, else the in-app default, else the
  static default, the empty string. It is synchronous and does not fail.
\<close>

definition getValue :: "string \<Rightarrow> state \<Rightarrow> string" where
  "getValue k s =
     (case rc_active s k of
        Some v \<Rightarrow> v
      | None \<Rightarrow> (case rc_defaults s k of Some d \<Rightarrow> d | None \<Rightarrow> []))"

definition getItem :: "env \<Rightarrow> string \<Rightarrow> string option action" where
  "getItem e k s =
     (case getItem_fault e (clock s) of
        Some err \<Rightarrow> (Inl err, logged (GetItem k) s)
      | None \<Rightarrow> (Inr (storage s k), logged (GetItem k) s))"

definition setItem :: "env \<Rightarrow> string \<Rightarrow> string \<Rightarrow> unit action" where
  "setItem e k v s =
     (case setItem_fault e (clock s) of
        Some err \<Rightarrow> (Inl err, logged (SetItem k v) s)
      | None \<Rightarrow> (Inr (), logged (SetItem k v) (s\<lparr>storage := (storage s)(k \<mapsto> v)\<rparr>)))"

subsection \<open>Sequencing, \<^verbatim>\<open>throw\<close> and \<^verbatim>\<open>try\<close>/\<^verbatim>\<open>catch\<close>\<close>

definition resolve :: "'a \<Rightarrow> 'a action" where
  "resolve x s = (Inr x, s)"

definition throw :: "js_error \<Rightarrow> 'a action" where
  "throw err s = (Inl err, s)"

definition await :: "'a action \<Rightarrow> ('a \<Rightarrow> 'b action) \<Rightarrow> 'b action" where
  "await m f s = (case m s of (Inl err, s1) \<Rightarrow> (Inl err, s1) | (Inr x, s1) \<Rightarrow> f x s1)"

definition try_catch :: "'a action \<Rightarrow> (js_error \<Rightarrow> 'a action) \<Rightarrow> 'a action" where
  "try_catch m h s = (case m s of (Inl err, s1) \<Rightarrow> h err s1 | (Inr x, s1) \<Rightarrow> (Inr x, s1))"

definition JSON_parse_or_throw :: "string \<Rightarrow> jsval action" where
  "JSON_parse_or_throw str =
     (case JSON_parse str of None \<Rightarrow> throw (JsError ''SyntaxError'') | Some v \<Rightarrow> resolve v)"

section \<open>\<^verbatim>\<open>RemoteConfigService\<close> (\<^verbatim>\<open>src/services/remoteConfig.ts\<close>)\<close>

text \<open>
  The class as the repository has it (the listing after the README, lines 509 to 596 of
  \<^verbatim>\<open>src/README.md\<close>), one definition per method. The service is a singleton, so the one
  \<open>state\<close> is shared by all calls. The \<^verbatim>\<open>console\<close> calls are left out: they neither throw
  nor change anything the service reads.
\<close>

definition THEME_CACHE_KEY :: string where
  "THEME_CACHE_KEY = ''@theme_cache''"

definition THEME_CONFIG_KEY :: string where
  "THEME_CONFIG_KEY = ''app_theme''"

text \<open>
  \<^verbatim>\<open>getCachedTheme\<close>: the stored string is parsed when it is truthy (not absent, not
  empty); a rejected read and a \<^verbatim>\<open>SyntaxError\<close> are caught and give \<^verbatim>\<open>null\<close>.
\<close>

definition getCachedTheme :: "env \<Rightarrow> jsval action" where
  "getCachedTheme e =
     try_catch
       (await (getItem e THEME_CACHE_KEY) (\<lambda>cachedTheme.
          case cachedTheme of
            Some str \<Rightarrow> if str \<noteq> [] then JSON_parse_or_throw str else resolve JNull
          | None \<Rightarrow> resolve JNull))
       (\<lambda>err. resolve JNull)"

text \<open>\<^verbatim>\<open>cacheTheme\<close>: a rejected write is caught and logged only.\<close>

definition cacheTheme :: "env \<Rightarrow> jsval \<Rightarrow> unit action" where
  "cacheTheme e theme =
     try_catch
       (await (setItem e THEME_CACHE_KEY (JSON_stringify theme)) (\<lambda>_. resolve ()))
       (\<lambda>err. resolve ())"

text \<open>
  The body of \<^verbatim>\<open>initialize\<close> behind its guard: the \<^verbatim>\<open>try\<close> block, whose \<^verbatim>\<open>catch\<close> rethrows.
\<close>

definition initialize_setup :: "env \<Rightarrow> unit action" where
  "initialize_setup e =
     try_catch
       (await (setConfigSettings e 0 0) (\<lambda>_.
        await (getCachedTheme e) (\<lambda>cachedTheme.
        await (setDefaults e THEME_CONFIG_KEY (JSON_stringify cachedTheme)) (\<lambda>_.
        (\<lambda>s. (Inr (), s\<lparr>initialized := True\<rparr>))))))
       (\<lambda>err. throw err)"

definition initialize :: "env \<Rightarrow> unit action" where
  "initialize e s = (if initialized s then (Inr (), s) else initialize_setup e s)"

text \<open>\<^verbatim>\<open>fetchTheme\<close>: its \<^verbatim>\<open>try\<close> block, its \<^verbatim>\<open>catch\<close> block, and the two together.\<close>

definition fetchTheme_try :: "env \<Rightarrow> jsval action" where
  "fetchTheme_try e =
     await (initialize e) (\<lambda>_.
     await (fetchAndActivate e) (\<lambda>_.
     (\<lambda>s. await (JSON_parse_or_throw (getValue THEME_CONFIG_KEY s)) (\<lambda>theme.
           await (cacheTheme e theme) (\<lambda>_.
           resolve theme)) s)))"

definition fetchTheme_catch :: "env \<Rightarrow> js_error \<Rightarrow> jsval action" where
  "fetchTheme_catch e err = await (getCachedTheme e) (\<lambda>cachedTheme. resolve cachedTheme)"

definition fetchTheme :: "env \<Rightarrow> jsval action" where
  "fetchTheme e = try_catch (fetchTheme_try e) (fetchTheme_catch e)"

section \<open>\<^verbatim>\<open>ThemeProvider\<close> (\<^verbatim>\<open>src/theme/ThemeContext.tsx\<close>)\<close>

text \<open>
  The three \<^verbatim>\<open>useState\<close> cells of the provider, and \<^verbatim>\<open>refreshTheme\<close> (lines 612 to 631
  of \<^verbatim>\<open>src/README.md\<close>) as the cells stand when it has finished.
\<close>

record provider =
  theme :: jsval
  isLoading :: bool
  error :: "string option"

definition provider_init :: provider where
  "provider_init = \<lparr>theme = DEFAULT_THEME, isLoading = True, error = None\<rparr>"

definition error_message :: "js_error \<Rightarrow> string" where
  "error_message err = (case err of JsError m \<Rightarrow> m | NonError \<Rightarrow> ''Failed to fetch theme'')"

definition refreshTheme :: "env \<Rightarrow> provider \<times> state \<Rightarrow> provider \<times> state" where
  "refreshTheme e ps =
     (case ps of (p, s) \<Rightarrow>
        let p1 = p\<lparr>isLoading := True, error := None\<rparr> in
        (case fetchTheme e s of
           (Inr newTheme, s1) \<Rightarrow>
             ((if truthy newTheme then p1\<lparr>theme := newTheme\<rparr> else p1\<lparr>theme := DEFAULT_THEME\<rparr>)
                \<lparr>isLoading := False\<rparr>,
              s1)
         | (Inl err, s1) \<Rightarrow> (p1\<lparr>error := Some (error_message err), isLoading := False\<rparr>, s1)))"

section \<open>Overlapping calls of \<^verbatim>\<open>initialize\<close>\<close>

text \<open>
  An \<^verbatim>\<open>async\<close> function runs to its first \<^verbatim>\<open>await\<close> when it is called, and from one
  \<^verbatim>\<open>await\<close> to the next each time it is resumed; calls in flight on the one service
  instance interleave at these points. A call of \<^verbatim>\<open>initialize\<close> in flight is at one of:
\<close>

datatype init_task =
    Awaiting_setConfigSettings
  | Awaiting_getCachedTheme
  | Awaiting_setDefaults jsval
  | Settled "unit outcome"

text \<open>Calling \<^verbatim>\<open>initialize\<close>: the guard, then the first \<^verbatim>\<open>await\<close>.\<close>

definition initialize_begin :: "state \<Rightarrow> init_task" where
  "initialize_begin s = (if initialized s then Settled (Inr ()) else Awaiting_setConfigSettings)"

text \<open>Resuming it: the awaited call settles and the code runs to the next \<^verbatim>\<open>await\<close>.\<close>

fun initialize_resume :: "env \<Rightarrow> init_task \<Rightarrow> state \<Rightarrow> init_task \<times> state" where
  "initialize_resume e Awaiting_setConfigSettings s =
     (case setConfigSettings e 0 0 s of
        (Inl err, s1) \<Rightarrow> (Settled (Inl err), s1)
      | (Inr _, s1) \<Rightarrow> (Awaiting_getCachedTheme, s1))"
| "initialize_resume e Awaiting_getCachedTheme s =
     (case getCachedTheme e s of
        (Inl err, s1) \<Rightarrow> (Settled (Inl err), s1)
      | (Inr cachedTheme, s1) \<Rightarrow> (Awaiting_setDefaults cachedTheme, s1))"
| "initialize_resume e (Awaiting_setDefaults cachedTheme) s =
     (case setDefaults e THEME_CONFIG_KEY (JSON_stringify cachedTheme) s of
        (Inl err, s1) \<Rightarrow> (Settled (Inl err), s1)
      | (Inr _, s1) \<Rightarrow> (Settled (Inr ()), s1\<lparr>initialized := True\<rparr>))"
| "initialize_resume e (Settled r) s = (Settled r, s)"

text \<open>A schedule names, step by step, the call in flight that is resumed next.\<close>

fun run_schedule :: "env \<Rightarrow> nat list \<Rightarrow> init_task list \<times> state \<Rightarrow> init_task list \<times> state" where
  "run_schedule e [] ts = ts"
| "run_schedule e (i # sched) (tasks, s) =
     (if i < length tasks then
        (case initialize_resume e (tasks ! i) s of
           (t, s1) \<Rightarrow> run_schedule e sched (tasks[i := t], s1))
      else run_schedule e sched (tasks, s))"

definition is_Settled :: "init_task \<Rightarrow> bool" where
  "is_Settled t = (case t of Settled r \<Rightarrow> True | _ \<Rightarrow> False)"

definition is_SetDefaults :: "call \<Rightarrow> bool" where
  "is_SetDefaults c = (case c of SetDefaults k v \<Rightarrow> True | _ \<Rightarrow> False)"

definition is_SetItem :: "call \<Rightarrow> bool" where
  "is_SetItem c = (case c of SetItem k v \<Rightarrow> True | _ \<Rightarrow> False)"

text \<open>How many times the defaults have been seeded so far.\<close>

definition seedings :: "state \<Rightarrow> nat" where
  "seedings s = length (filter is_SetDefaults (calls s))"

section \<open>Concrete worlds\<close>

definition reliable_env :: "(string \<rightharpoonup> string) \<Rightarrow> env" where
  "reliable_env template =
     \<lparr>setConfigSettings_fault = (\<lambda>t. None), setDefaults_fault = (\<lambda>t. None),
      fetchAndActivate_fault = (\<lambda>t. None), remote_template = (\<lambda>t. template),
      getItem_fault = (\<lambda>t. None), setItem_fault = (\<lambda>t. None)\<rparr>"

definition offline_env :: env where
  "offline_env =
     (reliable_env Map.empty)
       \<lparr>fetchAndActivate_fault := (\<lambda>t. Some (JsError ''network request failed''))\<rparr>"

definition fresh_state :: state where
  "fresh_state =
     \<lparr>initialized = False, storage = Map.empty, rc_settings = None, rc_defaults = Map.empty,
      rc_active = Map.empty, calls = []\<rparr>"

section \<open>Notions used in the proofs\<close>

text \<open>What may follow a number in JSON text without being read as one more of its digits.\<close>

definition no_digit_start :: "string \<Rightarrow> bool" where
  "no_digit_start r = (case r of [] \<Rightarrow> True | c # cs \<Rightarrow> \<not> is_digit c)"

text \<open>The characters a serialised value can start with are neither white space nor a closing bracket.\<close>

definition value_start :: "char \<Rightarrow> bool" where
  "value_start c = (\<not> is_ws c \<and> c \<noteq> CHR '']'' \<and> c \<noteq> CHR ''}'')"

text \<open>One member of a serialised object.\<close>

definition member_text :: "string \<times> jsval \<Rightarrow> string" where
  "member_text kv = quote (fst kv) @ CHR '':'' # JSON_stringify (snd kv)"

text \<open>
  What \<^verbatim>\<open>getCachedTheme\<close> resolves to, read off the state: \<^verbatim>\<open>null\<close> unless the read
  succeeds and the slot holds a non-empty string that parses.
\<close>

definition cached_value :: "env \<Rightarrow> state \<Rightarrow> jsval" where
  "cached_value e s =
     (case getItem_fault e (clock s) of
        Some err \<Rightarrow> JNull
      | None \<Rightarrow>
          (case storage s THEME_CACHE_KEY of
             None \<Rightarrow> JNull
           | Some c \<Rightarrow> if c = [] then JNull else (case JSON_parse c of None \<Rightarrow> JNull | Some v \<Rightarrow> v)))"

text \<open>A state whose cache slot holds the serialisation of a value.\<close>

definition cached_state :: "jsval \<Rightarrow> state" where
  "cached_state v = fresh_state\<lparr>storage := [THEME_CACHE_KEY \<mapsto> JSON_stringify v]\<rparr>"

text \<open>A document that parses and is not a theme: it has one colour and nothing else.\<close>

definition partial_theme :: jsval where
  "partial_theme = JObj [(''colors'', JObj [(''primary'', JStr ''#3F51B5'')])]"




text \<open>A call in flight that has not settled still owes its \<^verbatim>\<open>setDefaults\<close>.\<close>

definition pending :: "init_task \<Rightarrow> nat" where
  "pending t = (if is_Settled t then 0 else 1)"

text \<open>
  Every call in flight that has settled has resolved, and the flag is set by then.
\<close>

definition settled_ok :: "init_task list \<Rightarrow> state \<Rightarrow> bool" where
  "settled_ok tasks s =
     list_all (\<lambda>t. case t of Settled r \<Rightarrow> r = Inr () \<and> initialized s | _ \<Rightarrow> True) tasks"

section \<open>The JSON round trip\<close>

lemma of_char_digit_char: "d < 10 \<Longrightarrow> (of_char (digit_char d) :: nat) = 48 + d"
  by (simp add: digit_char_def)

lemma is_digit_digit_char: "d < 10 \<Longrightarrow> is_digit (digit_char d)"
  by (simp add: is_digit_def of_char_digit_char)

lemma digit_val_digit_char: "d < 10 \<Longrightarrow> digit_val (digit_char d) = d"
  by (simp add: digit_val_def of_char_digit_char)

lemma digit_char_eq_zero: "d < 10 \<Longrightarrow> digit_char d = CHR ''0'' \<longleftrightarrow> d = 0"
proof -
  assume d: "d < 10"
  have "digit_char d = CHR ''0'' \<longleftrightarrow> (of_char (digit_char d) :: nat) = of_char (CHR ''0'')"
    by (simp only: of_char_eq_iff)
  also have "\<dots> \<longleftrightarrow> d = 0"
    using d by (simp add: of_char_digit_char)
  finally show ?thesis .
qed

lemma digit_char_0: "digit_char 0 = CHR ''0''"
  using digit_char_eq_zero [of 0] by simp

lemma is_digit_not_minus: "is_digit c \<Longrightarrow> c \<noteq> CHR ''-''"
  by (auto simp: is_digit_def)

lemma show_nat_digits: "\<forall>c \<in> set (show_nat n). is_digit c"
proof (induction n rule: show_nat.induct)
  case (1 n)
  show ?case
  proof (cases "n < 10")
    case True
    then show ?thesis by (simp add: show_nat.simps [of n] is_digit_digit_char)
  next
    case False
    then show ?thesis
      using 1 by (simp add: show_nat.simps [of n] is_digit_digit_char)
  qed
qed

lemma show_nat_nonempty: "show_nat n \<noteq> []"
  by (simp add: show_nat.simps [of n])

lemma digits_val_snoc: "digits_val (ds @ [c]) = 10 * digits_val ds + digit_val c"
  by (simp add: digits_val_def)

lemma digits_val_show_nat: "digits_val (show_nat n) = n"
proof (induction n rule: show_nat.induct)
  case (1 n)
  show ?case
  proof (cases "n < 10")
    case True
    then show ?thesis
      by (simp add: show_nat.simps [of n] digits_val_def digit_val_digit_char)
  next
    case False
    then have "digits_val (show_nat (n div 10)) = n div 10"
      using 1 by simp
    then show ?thesis
      using False by (simp add: show_nat.simps [of n] digits_val_snoc digit_val_digit_char)
  qed
qed

lemma hd_show_nat_zero: "hd (show_nat n) = CHR ''0'' \<longleftrightarrow> n = 0"
proof (induction n rule: show_nat.induct)
  case (1 n)
  show ?case
  proof (cases "n < 10")
    case True
    then show ?thesis
      by (simp add: show_nat.simps [of n] digit_char_eq_zero)
  next
    case False
    then have "hd (show_nat (n div 10)) = CHR ''0'' \<longleftrightarrow> n div 10 = 0"
      using 1 by simp
    moreover have "n div 10 \<noteq> 0"
      using False by simp
    ultimately show ?thesis
      using False by (simp add: show_nat.simps [of n] show_nat_nonempty)
  qed
qed

lemma takeWhile_digits:
  "\<forall>c \<in> set ds. is_digit c \<Longrightarrow> no_digit_start r \<Longrightarrow> takeWhile is_digit (ds @ r) = ds"
  by (cases r) (simp_all add: no_digit_start_def takeWhile_append2)

lemma dropWhile_digits:
  "\<forall>c \<in> set ds. is_digit c \<Longrightarrow> no_digit_start r \<Longrightarrow> dropWhile is_digit (ds @ r) = r"
  by (cases r) (simp_all add: no_digit_start_def dropWhile_append2)

lemma parse_nat_show_nat:
  assumes "no_digit_start r"
  shows "parse_nat (show_nat n @ r) = Some (n, r)"
proof (cases "show_nat n")
  case Nil
  then show ?thesis by (simp add: show_nat_nonempty)
next
  case (Cons c cs)
  have dig: "\<forall>x \<in> set (show_nat n). is_digit x" by (rule show_nat_digits)
  then have c: "is_digit c" using Cons by simp
  show ?thesis
  proof (cases "n = 0")
    case True
    then show ?thesis
      by (simp add: show_nat.simps [of 0] parse_nat_def digit_char_0 is_digit_def)
  next
    case False
    then have "c \<noteq> CHR ''0''"
      using hd_show_nat_zero [of n] Cons by simp
    moreover have "takeWhile is_digit (show_nat n @ r) = show_nat n"
      using dig assms by (rule takeWhile_digits)
    moreover have "dropWhile is_digit (show_nat n @ r) = r"
      using dig assms by (rule dropWhile_digits)
    ultimately show ?thesis
      using c Cons by (simp add: parse_nat_def digits_val_show_nat [of n, unfolded Cons] del: takeWhile.simps dropWhile.simps)
  qed
qed

lemma parse_int_show_int:
  assumes "no_digit_start r"
  shows "parse_int (show_int i @ r) = Some (i, r)"
proof (cases "i < 0")
  case True
  then show ?thesis
    by (simp add: show_int_def parse_int_def parse_nat_show_nat [OF assms])
next
  case False
  obtain c cs where cs: "show_nat (nat i) = c # cs"
    using show_nat_nonempty [of "nat i"] by (cases "show_nat (nat i)") auto
  have "is_digit c"
    using show_nat_digits [of "nat i"] cs by simp
  then have "c \<noteq> CHR ''-''" by (rule is_digit_not_minus)
  moreover have "parse_nat ((c # cs) @ r) = Some (nat i, r)"
    using parse_nat_show_nat [OF assms, of "nat i"] cs by simp
  ultimately show ?thesis
    using False cs by (simp add: show_int_def parse_int_def)
qed

lemma hex_val_hex_char: "d < 16 \<Longrightarrow> hex_val (hex_char d) = Some d"
  by (simp add: hex_val_def hex_char_def)

lemma hex_val_zero: "hex_val (CHR ''0'') = Some 0"
  by (simp add: hex_val_def)

lemma unescape_u_control:
  assumes "(of_char c :: nat) < 32"
  shows "unescape_u (CHR ''0'') (CHR ''0'') (hex_char (of_char c div 16)) (hex_char (of_char c mod 16)) = Some c"
proof -
  let ?n = "of_char c :: nat"
  have "hex_val (hex_char (?n div 16)) = Some (?n div 16)"
    using assms by (intro hex_val_hex_char) simp
  moreover have "hex_val (hex_char (?n mod 16)) = Some (?n mod 16)"
    by (intro hex_val_hex_char) simp
  moreover have "char_of (16 * (?n div 16) + ?n mod 16) = c"
    by simp
  ultimately show ?thesis
    by (simp add: unescape_u_def hex_val_zero)
qed

lemma parse_chars_escape:
  assumes "parse_chars r = Some (s, r1)"
  shows "parse_chars (escape_char c @ r) = Some (c # s, r1)"
proof -
  consider (quote) "c = CHR 0x22" | (backslash) "c = CHR 0x5C"
    | (short) "c \<in> {CHR 0x08, CHR 0x0C, CHR 0x0A, CHR 0x0D, CHR 0x09}"
    | (control) "c \<notin> {CHR 0x22, CHR 0x5C, CHR 0x08, CHR 0x0C, CHR 0x0A, CHR 0x0D, CHR 0x09}"
        "(of_char c :: nat) < 32"
    | (plain) "c \<notin> {CHR 0x22, CHR 0x5C, CHR 0x08, CHR 0x0C, CHR 0x0A, CHR 0x0D, CHR 0x09}"
        "\<not> (of_char c :: nat) < 32"
    by blast
  then show ?thesis
  proof cases
    case quote
    then show ?thesis using assms by (simp add: escape_char_def unescape_simple_def)
  next
    case backslash
    then show ?thesis using assms by (simp add: escape_char_def unescape_simple_def)
  next
    case short
    then show ?thesis using assms by (auto simp: escape_char_def unescape_simple_def)
  next
    case control
    then show ?thesis
      using assms by (simp add: escape_char_def unescape_u_control)
  next
    case plain
    then show ?thesis using assms by (simp add: escape_char_def)
  qed
qed

lemma parse_chars_escaped:
  "parse_chars (concat (map escape_char s) @ CHR 0x22 # r) = Some (s, r)"
proof (induction s)
  case Nil
  show ?case by simp
next
  case (Cons c s)
  show ?case
    using parse_chars_escape [OF Cons.IH, of c] by simp
qed

lemma parse_chars_quote: "parse_chars (tl (quote s) @ r) = Some (s, r)"
  using parse_chars_escaped [of s r] by (simp add: quote_def)

lemma quote_Cons: "quote s = CHR 0x22 # tl (quote s)"
  by (simp add: quote_def)

lemma is_digit_value_start: "is_digit c \<Longrightarrow> value_start c"
  by (auto simp: is_digit_def value_start_def is_ws_def)

lemma skip_ws_start: "\<not> is_ws c \<Longrightarrow> skip_ws (c # cs) = c # cs"
  by (simp add: skip_ws_def)

lemma show_int_start: "\<exists>c cs. show_int i = c # cs \<and> value_start c \<and> (c = CHR ''-'' \<or> is_digit c)"
proof (cases "i < 0")
  case True
  then show ?thesis by (simp add: show_int_def value_start_def is_ws_def)
next
  case False
  obtain c cs where cs: "show_nat (nat i) = c # cs"
    using show_nat_nonempty [of "nat i"] by (cases "show_nat (nat i)") auto
  have "is_digit c"
    using show_nat_digits [of "nat i"] cs by simp
  then show ?thesis
    using False cs by (simp add: show_int_def is_digit_value_start)
qed

lemma stringify_start: "\<exists>c cs. JSON_stringify v = c # cs \<and> value_start c"
proof (cases v)
  case (JNum i)
  then show ?thesis using show_int_start [of i] by auto
qed (simp_all add: value_start_def is_ws_def quote_def)

lemma stringify_length: "0 < length (JSON_stringify v)"
  using stringify_start [of v] by auto

lemma join_comma_Cons:
  "join_comma (x # xs) = (if xs = [] then x else x @ CHR '','' # join_comma xs)"
  by (cases xs) simp_all

lemma obj_put_new: "fst kv \<notin> fst ` set ps \<Longrightarrow> obj_put ps kv = ps @ [kv]"
  by (induction ps) auto

lemma foldl_obj_put_distinct:
  "distinct (map fst (acc @ kvs)) \<Longrightarrow> foldl obj_put acc kvs = acc @ kvs"
proof (induction kvs arbitrary: acc)
  case Nil
  show ?case by simp
next
  case (Cons kv kvs)
  have "fst kv \<notin> fst ` set acc"
    using Cons.prems by auto
  then have "obj_put acc kv = acc @ [kv]"
    by (rule obj_put_new)
  moreover have "distinct (map fst ((acc @ [kv]) @ kvs))"
    using Cons.prems by simp
  ultimately show ?case
    using Cons.IH [of "acc @ [kv]"] by simp
qed

lemma parse_number_text:
  assumes "no_digit_start r" and "0 < n"
  shows "parse_value n (show_int i @ r) = Some (JNum i, r)"
proof -
  obtain m where n: "n = Suc m" using assms(2) by (cases n) auto
  obtain c cs where cs: "show_int i = c # cs" "value_start c" "c = CHR ''-'' \<or> is_digit c"
    using show_int_start [of i] by blast
  have "parse_int (c # cs @ r) = Some (i, r)"
    using parse_int_show_int [OF assms(1), of i] cs(1) by simp
  then show ?thesis
    using cs by (simp add: n skip_ws_start value_start_def)
qed

lemma parse_string_text:
  assumes "0 < n"
  shows "parse_value n (quote s @ r) = Some (JStr s, r)"
proof -
  obtain m where n: "n = Suc m" using assms by (cases n) auto
  have "parse_value (Suc m) (CHR 0x22 # tl (quote s) @ r) = Some (JStr s, r)"
    by (simp add: skip_ws_start is_ws_def is_digit_def parse_chars_quote)
  then show ?thesis
    using quote_Cons [of s] n by (metis append_Cons)
qed

lemma parse_elements_join:
  assumes "\<And>v n r. v \<in> set vs \<Longrightarrow> length (JSON_stringify v) \<le> n \<Longrightarrow> no_digit_start r \<Longrightarrow>
             parse_value n (JSON_stringify v @ r) = Some (v, r)"
    and "vs \<noteq> []"
    and "length (join_comma (map JSON_stringify vs)) < n"
  shows "parse_elements n (join_comma (map JSON_stringify vs) @ CHR '']'' # r) = Some (vs, r)"
  using assms
proof (induction vs arbitrary: n)
  case Nil
  then show ?case by simp
next
  case (Cons v vs)
  obtain m where n: "n = Suc m" using Cons.prems(3) by (cases n) auto
  have pv: "\<And>r. no_digit_start r \<Longrightarrow> parse_value m (JSON_stringify v @ r) = Some (v, r)"
  proof -
    fix r assume "no_digit_start r"
    moreover have "length (JSON_stringify v) \<le> m"
      using Cons.prems(3) n by (simp add: join_comma_Cons split: if_splits)
    ultimately show "parse_value m (JSON_stringify v @ r) = Some (v, r)"
      using Cons.prems(1) [of v m r] by simp
  qed
  show ?case
  proof (cases "vs = []")
    case True
    have "parse_value m (JSON_stringify v @ CHR '']'' # r) = Some (v, CHR '']'' # r)"
      by (rule pv) (simp add: no_digit_start_def is_digit_def)
    then show ?thesis
      using True by (simp add: n skip_ws_start is_ws_def)
  next
    case False
    let ?rest = "join_comma (map JSON_stringify vs) @ CHR '']'' # r"
    have "parse_value m (JSON_stringify v @ CHR '','' # ?rest) = Some (v, CHR '','' # ?rest)"
      by (rule pv) (simp add: no_digit_start_def is_digit_def)
    moreover have "parse_elements m ?rest = Some (vs, r)"
    proof (rule Cons.IH [OF _ False])
      show "length (join_comma (map JSON_stringify vs)) < m"
        using Cons.prems(3) n False stringify_length [of v] by (simp add: join_comma_Cons)
    next
      fix x k q
      assume "x \<in> set vs" "length (JSON_stringify x) \<le> k" "no_digit_start q"
      then show "parse_value k (JSON_stringify x @ q) = Some (x, q)"
        using Cons.prems(1) [of x k q] by simp
    qed
    ultimately show ?thesis
      using False by (simp add: n join_comma_Cons skip_ws_start is_ws_def)
  qed
qed

lemma stringify_JObj:
  "JSON_stringify (JObj kvs) = CHR ''{'' # join_comma (map member_text kvs) @ ''}''"
proof -
  have "(\<lambda>(k, v). quote k @ CHR '':'' # JSON_stringify v) = member_text"
    by (auto simp: member_text_def fun_eq_iff)
  then show ?thesis by simp
qed

lemma member_text_length: "length (JSON_stringify (snd kv)) < length (member_text kv)"
  by (simp add: member_text_def)

lemma parse_members_join:
  assumes "\<And>kv n r. kv \<in> set kvs \<Longrightarrow> length (JSON_stringify (snd kv)) \<le> n \<Longrightarrow> no_digit_start r \<Longrightarrow>
             parse_value n (JSON_stringify (snd kv) @ r) = Some (snd kv, r)"
    and "kvs \<noteq> []"
    and "length (join_comma (map member_text kvs)) < n"
  shows "parse_members n (join_comma (map member_text kvs) @ CHR ''}'' # r) = Some (kvs, r)"
  using assms
proof (induction kvs arbitrary: n)
  case Nil
  then show ?case by simp
next
  case (Cons kv kvs)
  obtain m where n: "n = Suc m" using Cons.prems(3) by (cases n) auto
  obtain k v where kv: "kv = (k, v)" by (cases kv)
  have pv: "\<And>r. no_digit_start r \<Longrightarrow> parse_value m (JSON_stringify v @ r) = Some (v, r)"
  proof -
    fix r assume "no_digit_start r"
    moreover have "length (JSON_stringify v) \<le> m"
      using Cons.prems(3) n member_text_length [of kv]
      by (simp add: join_comma_Cons kv split: if_splits)
    ultimately show "parse_value m (JSON_stringify v @ r) = Some (v, r)"
      using Cons.prems(1) [of kv m r] by (simp add: kv)
  qed
  have key: "\<And>q. parse_members (Suc m) (member_text kv @ q) =
      (case parse_value m (JSON_stringify v @ q) of
         None \<Rightarrow> None
       | Some (v1, r1) \<Rightarrow>
           (case skip_ws r1 of
              [] \<Rightarrow> None
            | c1 # cs1 \<Rightarrow>
                if c1 = CHR '','' then
                  map_option (\<lambda>(ms, r2). ((k, v1) # ms, r2)) (parse_members m cs1)
                else if c1 = CHR ''}'' then Some ([(k, v1)], cs1)
                else None))"
  proof -
    fix q
    have "member_text kv @ q = CHR 0x22 # tl (quote k) @ CHR '':'' # JSON_stringify v @ q"
      using quote_Cons [of k] by (simp add: member_text_def kv)
    then show "parse_members (Suc m) (member_text kv @ q) =
      (case parse_value m (JSON_stringify v @ q) of
         None \<Rightarrow> None
       | Some (v1, r1) \<Rightarrow>
           (case skip_ws r1 of
              [] \<Rightarrow> None
            | c1 # cs1 \<Rightarrow>
                if c1 = CHR '','' then
                  map_option (\<lambda>(ms, r2). ((k, v1) # ms, r2)) (parse_members m cs1)
                else if c1 = CHR ''}'' then Some ([(k, v1)], cs1)
                else None))"
      by (simp add: skip_ws_start is_ws_def parse_chars_quote)
  qed
  show ?case
  proof (cases "kvs = []")
    case True
    have "parse_value m (JSON_stringify v @ CHR ''}'' # r) = Some (v, CHR ''}'' # r)"
      by (rule pv) (simp add: no_digit_start_def is_digit_def)
    then show ?thesis
      using True key [of "CHR ''}'' # r"] by (simp add: n kv skip_ws_start is_ws_def)
  next
    case False
    let ?rest = "join_comma (map member_text kvs) @ CHR ''}'' # r"
    have "parse_value m (JSON_stringify v @ CHR '','' # ?rest) = Some (v, CHR '','' # ?rest)"
      by (rule pv) (simp add: no_digit_start_def is_digit_def)
    moreover have "parse_members m ?rest = Some (kvs, r)"
    proof (rule Cons.IH [OF _ False])
      show "length (join_comma (map member_text kvs)) < m"
        using Cons.prems(3) n False by (simp add: join_comma_Cons)
    next
      fix x j q
      assume "x \<in> set kvs" "length (JSON_stringify (snd x)) \<le> j" "no_digit_start q"
      then show "parse_value j (JSON_stringify (snd x) @ q) = Some (snd x, q)"
        using Cons.prems(1) [of x j q] by simp
    qed
    ultimately show ?thesis
      using False key [of "CHR '','' # ?rest"]
      by (simp add: n kv join_comma_Cons skip_ws_start is_ws_def)
  qed
qed

lemma join_start:
  assumes "xs \<noteq> []" and "\<forall>x \<in> set xs. \<exists>c cs. x = c # cs \<and> P c"
  shows "\<exists>c cs. join_comma xs = c # cs \<and> P c"
proof (cases xs)
  case Nil
  then show ?thesis using assms(1) by simp
next
  case (Cons x ys)
  then obtain c cs where "x = c # cs" "P c" using assms(2) by auto
  then show ?thesis using Cons by (cases ys) auto
qed

lemma parse_value_stringify:
  "wf_json v \<Longrightarrow> length (JSON_stringify v) \<le> n \<Longrightarrow> no_digit_start r \<Longrightarrow>
     parse_value n (JSON_stringify v @ r) = Some (v, r)"
proof (induction v arbitrary: n r)
  case JNull
  then obtain m where "n = Suc m" by (cases n) auto
  then show ?case by (simp add: skip_ws_start is_ws_def is_digit_def)
next
  case (JBool b)
  then obtain m where "n = Suc m"
    using stringify_length [of "JBool b"] by (cases n) auto
  then show ?case by (cases b) (simp_all add: skip_ws_start is_ws_def is_digit_def)
next
  case (JNum i)
  then have "0 < n" using stringify_length [of "JNum i"] by (cases n) auto
  then show ?case using JNum.prems(3) by (simp add: parse_number_text)
next
  case (JStr s)
  then have "0 < n" using stringify_length [of "JStr s"] by (cases n) auto
  then show ?case by (simp add: parse_string_text)
next
  case (JArr vs)
  obtain m where n: "n = Suc m" using JArr.prems(2) by (cases n) auto
  show ?case
  proof (cases "vs = []")
    case True
    then show ?thesis by (simp add: n skip_ws_start is_ws_def is_digit_def)
  next
    case False
    let ?body = "join_comma (map JSON_stringify vs)"
    have "\<forall>x \<in> set (map JSON_stringify vs). \<exists>c cs. x = c # cs \<and> value_start c"
      using stringify_start by fastforce
    then have "\<exists>c cs. ?body = c # cs \<and> value_start c"
      using False by (intro join_start) simp_all
    then obtain c cs where body: "?body = c # cs" and c: "value_start c" by blast
    have "parse_elements m (?body @ CHR '']'' # r) = Some (vs, r)"
    proof (rule parse_elements_join [OF _ False])
      show "length ?body < m" using JArr.prems(2) n by simp
    next
      fix x k q
      assume "x \<in> set vs" "length (JSON_stringify x) \<le> k" "no_digit_start q"
      then show "parse_value k (JSON_stringify x @ q) = Some (x, q)"
        using JArr.IH [of x k q] JArr.prems(1) by (simp add: list_all_iff)
    qed
    then have "parse_elements m (c # cs @ CHR '']'' # r) = Some (vs, r)"
      using body by simp
    then have "parse_value (Suc m) (CHR ''['' # (c # cs) @ CHR '']'' # r) = Some (JArr vs, r)"
      using c by (simp add: skip_ws_start is_ws_def is_digit_def value_start_def)
    then show ?thesis
      using body n by simp
  qed
next
  case (JObj kvs)
  obtain m where n: "n = Suc m" using JObj.prems(2) by (cases n) auto
  have dist: "distinct (map fst kvs)" using JObj.prems(1) by simp
  show ?case
  proof (cases "kvs = []")
    case True
    then show ?thesis by (simp add: n skip_ws_start is_ws_def is_digit_def)
  next
    case False
    let ?body = "join_comma (map member_text kvs)"
    have "\<forall>x \<in> set (map member_text kvs). \<exists>c cs. x = c # cs \<and> c = CHR 0x22"
      by (simp add: member_text_def quote_def)
    then have "\<exists>c cs. ?body = c # cs \<and> c = CHR 0x22"
      using False by (intro join_start) simp_all
    then obtain cs where body: "?body = CHR 0x22 # cs" by blast
    have "parse_members m (?body @ CHR ''}'' # r) = Some (kvs, r)"
    proof (rule parse_members_join [OF _ False])
      show "length ?body < m"
        using JObj.prems(2) n by (simp add: stringify_JObj del: JSON_stringify.simps)
    next
      fix x k q
      assume x: "x \<in> set kvs" and "length (JSON_stringify (snd x)) \<le> k" "no_digit_start q"
      moreover have "snd x \<in> Basic_BNFs.snds x"
        by (cases x) simp
      moreover have "wf_json (snd x)"
        using JObj.prems(1) x by (simp add: list_all_iff)
      ultimately show "parse_value k (JSON_stringify (snd x) @ q) = Some (snd x, q)"
        using JObj.IH [of x "snd x" k q] by simp
    qed
    then have "parse_members m (CHR 0x22 # cs @ CHR ''}'' # r) = Some (kvs, r)"
      using body by simp
    moreover have "foldl obj_put [] kvs = kvs"
      using foldl_obj_put_distinct [of "[]" kvs] dist by simp
    ultimately have "parse_value (Suc m) (CHR ''{'' # (CHR 0x22 # cs) @ CHR ''}'' # r) = Some (JObj kvs, r)"
      by (simp add: skip_ws_start is_ws_def is_digit_def)
    then show ?thesis
      using body n by (simp add: stringify_JObj del: JSON_stringify.simps)
  qed
qed

lemma JSON_parse_stringify: "wf_json v \<Longrightarrow> JSON_parse (JSON_stringify v) = Some v"
  using parse_value_stringify [of v "Suc (length (JSON_stringify v))" "[]"]
  by (simp add: JSON_parse_def no_digit_start_def skip_ws_def)


section \<open>How the service's functions settle\<close>

lemmas action_defs = resolve_def throw_def await_def try_catch_def JSON_parse_or_throw_def
lemmas collab_defs = getItem_def setItem_def setDefaults_def setConfigSettings_def
  fetchAndActivate_def logged_def clock_def

lemma JSON_parse_empty: "JSON_parse [] = None"
  by (simp add: JSON_parse_def skip_ws_def)

lemma getCachedTheme_eq:
  "getCachedTheme e s = (Inr (cached_value e s), logged (GetItem THEME_CACHE_KEY) s)"
  by (simp add: getCachedTheme_def cached_value_def action_defs getItem_def
      split: option.splits)

lemma cacheTheme_eq:
  "cacheTheme e v s =
     (Inr (),
      logged (SetItem THEME_CACHE_KEY (JSON_stringify v))
        (case setItem_fault e (clock s) of
           Some err \<Rightarrow> s
         | None \<Rightarrow> s\<lparr>storage := (storage s)(THEME_CACHE_KEY \<mapsto> JSON_stringify v)\<rparr>))"
  by (simp add: cacheTheme_def action_defs setItem_def logged_def clock_def split: option.splits)

lemma cached_value_storage:
  "storage s1 = storage s \<Longrightarrow> getItem_fault e (clock s1) = None \<Longrightarrow>
   storage s THEME_CACHE_KEY = Some c \<Longrightarrow> JSON_parse c = Some v \<Longrightarrow> cached_value e s1 = v"
  by (auto simp: cached_value_def JSON_parse_empty)

lemma cached_value_absent:
  "storage s1 = storage s \<Longrightarrow> storage s THEME_CACHE_KEY = None \<Longrightarrow> cached_value e s1 = JNull"
  by (simp add: cached_value_def split: option.splits)

lemma initialize_frame:
  "storage (snd (initialize e s)) = storage s \<and>
   filter is_SetItem (calls (snd (initialize e s))) = filter is_SetItem (calls s)"
  by (simp add: initialize_def initialize_setup_def getCachedTheme_eq action_defs collab_defs
      is_SetItem_def split: option.splits)

lemma fetchTheme_try_fail_frame:
  assumes "fst (fetchTheme_try e s) = Inl err"
  shows "storage (snd (fetchTheme_try e s)) = storage s \<and>
         filter is_SetItem (calls (snd (fetchTheme_try e s))) = filter is_SetItem (calls s)"
proof -
  obtain r s1 where i: "initialize e s = (r, s1)" by (cases "initialize e s")
  have fr: "storage s1 = storage s \<and> filter is_SetItem (calls s1) = filter is_SetItem (calls s)"
    using initialize_frame [of e s] i by simp
  show ?thesis
    using assms fr i
    by (simp add: fetchTheme_try_def cacheTheme_eq action_defs fetchAndActivate_def logged_def
        is_SetItem_def split: option.splits sum.splits)
qed

lemma fetchTheme_catch_path:
  assumes "fst (fetchTheme_try e s) = Inl err"
  shows "fetchTheme e s =
           (Inr (cached_value e (snd (fetchTheme_try e s))),
            logged (GetItem THEME_CACHE_KEY) (snd (fetchTheme_try e s)))"
  using assms
  by (cases "fetchTheme_try e s")
     (simp add: fetchTheme_def fetchTheme_catch_def getCachedTheme_eq try_catch_def await_def
        resolve_def)

lemma fetchTheme_try_path:
  assumes "fst (fetchTheme_try e s) = Inr v"
  shows "fetchTheme e s = fetchTheme_try e s"
  using assms by (cases "fetchTheme_try e s") (simp add: fetchTheme_def try_catch_def)

lemma wf_DEFAULT_THEME: "wf_json DEFAULT_THEME"
  by (simp add: DEFAULT_THEME_def)

lemma is_Theme_DEFAULT_THEME: "is_Theme DEFAULT_THEME"
  by (simp add: is_Theme_def wf_DEFAULT_THEME)
     (simp add: DEFAULT_THEME_def is_ThemeColors_def is_ThemeTypography_def is_ThemeSpacing_def
        has_strings_def has_numbers_def)

lemma wf_partial_theme: "wf_json partial_theme"
  by (simp add: partial_theme_def)

lemma not_Theme_partial_theme: "\<not> is_Theme partial_theme"
  by (simp add: is_Theme_def partial_theme_def)

lemma offline_try_fails:
  "fst (fetchTheme_try offline_env s) = Inl (JsError ''network request failed'')"
  by (simp add: fetchTheme_try_def initialize_def initialize_setup_def getCachedTheme_eq
      action_defs collab_defs reliable_env_def offline_env_def)

lemma fetchTheme_try_accepts:
  assumes "initialize e s = (Inr (), s1)"
    and "fetchAndActivate_fault e (clock s1) = None"
    and "remote_template e (clock s1) THEME_CONFIG_KEY = Some str"
    and "JSON_parse str = Some v"
  shows "fst (fetchTheme_try e s) = Inr v \<and>
         storage (snd (fetchTheme_try e s)) THEME_CACHE_KEY =
           (case setItem_fault e (Suc (clock s1)) of
              None \<Rightarrow> Some (JSON_stringify v)
            | Some err \<Rightarrow> storage s THEME_CACHE_KEY)"
proof -
  have "storage s1 = storage s"
    using initialize_frame [of e s] assms(1) by simp
  then show ?thesis
    using assms
    by (simp add: fetchTheme_try_def cacheTheme_eq action_defs fetchAndActivate_def getValue_def
        logged_def clock_def split: option.splits)
qed

lemma initialize_reliable:
  "initialize (reliable_env m) fresh_state =
     (Inr (),
      fresh_state\<lparr>initialized := True, rc_settings := Some (0, 0),
        rc_defaults := [THEME_CONFIG_KEY \<mapsto> ''null''],
        calls := [SetConfigSettings 0 0, GetItem THEME_CACHE_KEY, SetDefaults THEME_CONFIG_KEY ''null'']\<rparr>)"
  by (simp add: initialize_def initialize_setup_def getCachedTheme_eq cached_value_def
      action_defs collab_defs reliable_env_def fresh_state_def)

lemma initialize_setup_default:
  assumes "\<not> initialized s" and "fst (initialize e s) = Inr ()"
  shows "rc_defaults (snd (initialize e s)) THEME_CONFIG_KEY =
           Some (JSON_stringify (cached_value e (logged (SetConfigSettings 0 0) s)))"
  using assms
  by (simp add: initialize_def initialize_setup_def getCachedTheme_eq action_defs
      setConfigSettings_def setDefaults_def logged_def clock_def cached_value_def
      split: option.splits)

lemma fetchTheme_try_unparseable:
  assumes "\<forall>t. \<exists>str. remote_template e t THEME_CONFIG_KEY = Some str \<and> JSON_parse str = None"
  shows "\<exists>err. fst (fetchTheme_try e s) = Inl err"
proof -
  obtain r s1 where i: "initialize e s = (r, s1)" by (cases "initialize e s")
  obtain str where str: "remote_template e (clock s1) THEME_CONFIG_KEY = Some str"
      "JSON_parse str = None"
    using assms by blast
  show ?thesis
    using i str
    by (cases r)
       (simp_all add: fetchTheme_try_def action_defs fetchAndActivate_def getValue_def logged_def
          split: option.splits)
qed



lemma fetchTheme_partial_theme:
  "fetchTheme (reliable_env [THEME_CONFIG_KEY \<mapsto> JSON_stringify partial_theme]) fresh_state =
     fetchTheme_try (reliable_env [THEME_CONFIG_KEY \<mapsto> JSON_stringify partial_theme]) fresh_state \<and>
   fst (fetchTheme_try (reliable_env [THEME_CONFIG_KEY \<mapsto> JSON_stringify partial_theme]) fresh_state)
     = Inr partial_theme"
proof -
  let ?e = "reliable_env [THEME_CONFIG_KEY \<mapsto> JSON_stringify partial_theme]"
  have p: "JSON_parse (JSON_stringify partial_theme) = Some partial_theme"
    using wf_partial_theme by (rule JSON_parse_stringify)
  have t: "fst (fetchTheme_try ?e fresh_state) = Inr partial_theme"
    using fetchTheme_try_accepts [OF initialize_reliable _ _ p, of "[THEME_CONFIG_KEY \<mapsto> JSON_stringify partial_theme]"]
    by (simp add: reliable_env_def)
  then show ?thesis
    using fetchTheme_try_path by blast
qed




section \<open>Overlapping calls: what every schedule preserves\<close>

text \<open>
  With collaborators that do not reject, every resumption keeps the sum of the seedings
  done and the seedings still owed, and no call settles before the flag is set. One call
  resumed three times is \<^verbatim>\<open>initialize\<close> itself.
\<close>

lemma initialize_resume_count:
  assumes "\<forall>t. setConfigSettings_fault e t = None" and "\<forall>t. setDefaults_fault e t = None"
  shows "seedings (snd (initialize_resume e t s)) + pending (fst (initialize_resume e t s)) =
         seedings s + pending t"
proof (cases t)
  case Awaiting_setConfigSettings
  then show ?thesis
    using assms(1)
    by (simp add: setConfigSettings_def seedings_def logged_def pending_def is_Settled_def
        is_SetDefaults_def)
next
  case Awaiting_getCachedTheme
  then show ?thesis
    by (simp add: getCachedTheme_eq seedings_def logged_def pending_def is_Settled_def
        is_SetDefaults_def)
next
  case (Awaiting_setDefaults v)
  then show ?thesis
    using assms(2)
    by (simp add: setDefaults_def seedings_def logged_def pending_def is_Settled_def
        is_SetDefaults_def)
next
  case (Settled r)
  then show ?thesis by simp
qed

lemma sum_list_map_update:
  "i < length xs \<Longrightarrow>
   sum_list (map f (xs[i := x])) + f (xs ! i) = sum_list (map f xs) + (f x :: nat)"
proof (induction xs arbitrary: i)
  case Nil
  then show ?case by simp
next
  case (Cons y ys)
  then show ?case by (cases i) auto
qed

lemma run_schedule_count:
  assumes "\<forall>t. setConfigSettings_fault e t = None" and "\<forall>t. setDefaults_fault e t = None"
  shows "seedings (snd (run_schedule e sched (tasks, s))) +
           sum_list (map pending (fst (run_schedule e sched (tasks, s)))) =
         seedings s + sum_list (map pending tasks)"
proof (induction sched arbitrary: tasks s)
  case Nil
  show ?case by simp
next
  case (Cons i sched)
  show ?case
  proof (cases "i < length tasks")
    case False
    then show ?thesis using Cons.IH [of tasks s] by simp
  next
    case True
    obtain t s1 where r: "initialize_resume e (tasks ! i) s = (t, s1)"
      by (cases "initialize_resume e (tasks ! i) s")
    have "seedings s1 + pending t = seedings s + pending (tasks ! i)"
      using initialize_resume_count [OF assms, of "tasks ! i" s] r by simp
    moreover have "sum_list (map pending (tasks[i := t])) + pending (tasks ! i) =
        sum_list (map pending tasks) + pending t"
      using True by (rule sum_list_map_update)
    ultimately have "seedings s1 + sum_list (map pending (tasks[i := t])) =
        seedings s + sum_list (map pending tasks)"
      by arith
    then show ?thesis
      using True r Cons.IH [of "tasks[i := t]" s1] by simp
  qed
qed

lemma initialize_resume_initialized:
  "initialized s \<Longrightarrow> initialized (snd (initialize_resume e t s))"
  by (cases t)
     (simp_all add: getCachedTheme_eq collab_defs split: option.splits)

lemma initialize_resume_ok:
  assumes "\<forall>t. setConfigSettings_fault e t = None" and "\<forall>t. setDefaults_fault e t = None"
    and "case t of Settled r \<Rightarrow> r = Inr () \<and> initialized s | _ \<Rightarrow> True"
  shows "case fst (initialize_resume e t s) of
           Settled r \<Rightarrow> r = Inr () \<and> initialized (snd (initialize_resume e t s))
         | _ \<Rightarrow> True"
  using assms
  by (cases t) (simp_all add: getCachedTheme_eq collab_defs)

lemma settled_ok_step:
  assumes "\<forall>t. setConfigSettings_fault e t = None" and "\<forall>t. setDefaults_fault e t = None"
    and "settled_ok tasks s" and "i < length tasks"
  shows "settled_ok (tasks[i := fst (initialize_resume e (tasks ! i) s)])
                    (snd (initialize_resume e (tasks ! i) s))"
proof -
  let ?t = "fst (initialize_resume e (tasks ! i) s)" and ?s1 = "snd (initialize_resume e (tasks ! i) s)"
  have old: "\<And>x. x \<in> set tasks \<Longrightarrow> (case x of Settled r \<Rightarrow> r = Inr () \<and> initialized s | _ \<Rightarrow> True)"
    using assms(3) by (auto simp: settled_ok_def list_all_iff)
  have new: "case ?t of Settled r \<Rightarrow> r = Inr () \<and> initialized ?s1 | _ \<Rightarrow> True"
    using assms(4) by (intro initialize_resume_ok [OF assms(1,2)] old) simp
  have "\<And>x. x \<in> set (tasks[i := ?t]) \<Longrightarrow>
      (case x of Settled r \<Rightarrow> r = Inr () \<and> initialized ?s1 | _ \<Rightarrow> True)"
  proof -
    fix x assume "x \<in> set (tasks[i := ?t])"
    then have "x = ?t \<or> x \<in> set tasks"
      using set_update_subset_insert [of tasks i ?t] by auto
    then show "case x of Settled r \<Rightarrow> r = Inr () \<and> initialized ?s1 | _ \<Rightarrow> True"
    proof
      assume "x = ?t" then show ?thesis using new by simp
    next
      assume xin: "x \<in> set tasks"
      show ?thesis
        using old [OF xin] initialize_resume_initialized [of s e "tasks ! i"]
        by (auto split: init_task.splits)
    qed
  qed
  then show ?thesis
    by (simp add: settled_ok_def list_all_iff)
qed

lemma run_schedule_settled_ok:
  assumes "\<forall>t. setConfigSettings_fault e t = None" and "\<forall>t. setDefaults_fault e t = None"
  shows "settled_ok tasks s \<Longrightarrow>
         settled_ok (fst (run_schedule e sched (tasks, s))) (snd (run_schedule e sched (tasks, s)))"
proof (induction sched arbitrary: tasks s)
  case Nil
  then show ?case by simp
next
  case (Cons i sched)
  show ?case
  proof (cases "i < length tasks")
    case False
    then show ?thesis using Cons by simp
  next
    case True
    have "settled_ok (tasks[i := fst (initialize_resume e (tasks ! i) s)])
                     (snd (initialize_resume e (tasks ! i) s))"
      using assms Cons.prems True by (rule settled_ok_step)
    then show ?thesis
      using True Cons.IH by (simp add: case_prod_beta)
  qed
qed

lemma run_schedule_length: "length (fst (run_schedule e sched (tasks, s))) = length tasks"
  by (induction sched arbitrary: tasks s) (auto simp: case_prod_beta)

lemma initialize_as_steps:
  "run_schedule e [0, 0, 0] ([initialize_begin s], s) =
     ([Settled (fst (initialize e s))], snd (initialize e s))"
  by (simp add: initialize_begin_def initialize_def initialize_setup_def getCachedTheme_eq
      action_defs collab_defs split: option.splits)

section \<open>The claims\<close>




text \<open>
  C2, as stated, fails: the \<^verbatim>\<open>try\<close> block fails (the fetch rejects), the cache slot is
  empty, and \<^verbatim>\<open>fetchTheme\<close> resolves to \<^verbatim>\<open>null\<close>, not to \<^verbatim>\<open>DEFAULT_THEME\<close>.
\<close>

theorem fetchTheme_empty_cache_is_null:
  "fst (fetchTheme_try offline_env fresh_state) = Inl (JsError ''network request failed'') \<and>
   storage fresh_state THEME_CACHE_KEY = None \<and>
   fst (fetchTheme offline_env fresh_state) = Inr JNull \<and>
   JNull \<noteq> DEFAULT_THEME"
proof -
  have "fst (fetchTheme offline_env fresh_state) = Inr JNull"
    using fetchTheme_catch_path [OF offline_try_fails, of fresh_state]
      cached_value_absent [of "snd (fetchTheme_try offline_env fresh_state)" fresh_state offline_env]
      fetchTheme_try_fail_frame [OF offline_try_fails, of fresh_state]
    by (simp add: fresh_state_def)
  then show ?thesis
    by (simp add: offline_try_fails fresh_state_def DEFAULT_THEME_def)
qed

text \<open>
  C2, amended: if the \<^verbatim>\<open>try\<close> block of \<^verbatim>\<open>fetchTheme\<close> fails, for whatever reason, and
  the cache slot is empty, \<^verbatim>\<open>fetchTheme\<close> resolves to \<^verbatim>\<open>null\<close>; it is the provider's
  \<^verbatim>\<open>refreshTheme\<close> that then makes \<^verbatim>\<open>DEFAULT_THEME\<close> the current theme.
\<close>

theorem fetchTheme_fallback_null:
  assumes "fst (fetchTheme_try e s) = Inl err"
    and "storage s THEME_CACHE_KEY = None"
  shows "fst (fetchTheme e s) = Inr JNull \<and>
         theme (fst (refreshTheme e (p, s))) = DEFAULT_THEME"
proof -
  have "storage (snd (fetchTheme_try e s)) = storage s"
    using fetchTheme_try_fail_frame [OF assms(1)] by simp
  then have "cached_value e (snd (fetchTheme_try e s)) = JNull"
    using assms(2) by (rule cached_value_absent)
  then have r: "fst (fetchTheme e s) = Inr JNull"
    using fetchTheme_catch_path [OF assms(1)] by simp
  then have "theme (fst (refreshTheme e (p, s))) = DEFAULT_THEME"
    by (cases "fetchTheme e s") (simp add: refreshTheme_def)
  then show ?thesis using r by simp
qed

text \<open>C2, amended, at the offline world with nothing cached.\<close>

theorem fetchTheme_fallback_null_witness:
  "fst (fetchTheme_try offline_env fresh_state) = Inl (JsError ''network request failed'') \<and>
   storage fresh_state THEME_CACHE_KEY = None \<and>
   fst (fetchTheme offline_env fresh_state) = Inr JNull \<and>
   theme (fst (refreshTheme offline_env (provider_init, fresh_state))) = DEFAULT_THEME"
proof -
  have h: "storage fresh_state THEME_CACHE_KEY = None"
    by (simp add: fresh_state_def)
  show ?thesis
    using fetchTheme_fallback_null [OF offline_try_fails h, of provider_init] offline_try_fails h
    by simp
qed

text \<open>
  C3, as stated, fails: the remote serves a document with one colour and no typography or
  spacing; it parses, it is not a theme, and \<^verbatim>\<open>fetchTheme\<close> both returns it and writes it
  into the cache slot.
\<close>

theorem fetchTheme_accepts_partial_theme:
  "\<not> is_Theme partial_theme \<and>
   fst (fetchTheme (reliable_env [THEME_CONFIG_KEY \<mapsto> JSON_stringify partial_theme]) fresh_state)
     = Inr partial_theme \<and>
   storage (snd (fetchTheme (reliable_env [THEME_CONFIG_KEY \<mapsto> JSON_stringify partial_theme])
                   fresh_state)) THEME_CACHE_KEY
     = Some (JSON_stringify partial_theme)"
proof -
  let ?e = "reliable_env [THEME_CONFIG_KEY \<mapsto> JSON_stringify partial_theme]"
  have p: "JSON_parse (JSON_stringify partial_theme) = Some partial_theme"
    using wf_partial_theme by (rule JSON_parse_stringify)
  have t: "fst (fetchTheme_try ?e fresh_state) = Inr partial_theme \<and>
        storage (snd (fetchTheme_try ?e fresh_state)) THEME_CACHE_KEY =
          Some (JSON_stringify partial_theme)"
    using fetchTheme_try_accepts [OF initialize_reliable _ _ p, of "[THEME_CONFIG_KEY \<mapsto> JSON_stringify partial_theme]"]
    by (simp add: reliable_env_def)
  then have "fetchTheme ?e fresh_state = fetchTheme_try ?e fresh_state"
    using fetchTheme_try_path by blast
  then show ?thesis
    using t not_Theme_partial_theme by simp
qed

text \<open>
  C3, amended: when \<^verbatim>\<open>initialize\<close> and \<^verbatim>\<open>fetchAndActivate\<close> succeed, whatever value
  \<^verbatim>\<open>JSON.parse\<close> returns for the raw string of the theme key is returned by \<^verbatim>\<open>fetchTheme\<close>
  and, unless the write rejects, stored in the cache slot; no schema is consulted.
\<close>

theorem fetchTheme_accepts_any_document:
  assumes "fst (initialize e s) = Inr ()"
    and "fetchAndActivate_fault e (clock (snd (initialize e s))) = None"
    and "remote_template e (clock (snd (initialize e s))) THEME_CONFIG_KEY = Some str"
    and "JSON_parse str = Some v"
  shows "fst (fetchTheme e s) = Inr v \<and>
         storage (snd (fetchTheme e s)) THEME_CACHE_KEY =
           (case setItem_fault e (Suc (clock (snd (initialize e s)))) of
              None \<Rightarrow> Some (JSON_stringify v)
            | Some err \<Rightarrow> storage s THEME_CACHE_KEY)"
proof -
  have i: "initialize e s = (Inr (), snd (initialize e s))"
    using assms(1) by (cases "initialize e s") simp
  note t = fetchTheme_try_accepts [OF i assms(2,3,4)]
  then have "fetchTheme e s = fetchTheme_try e s"
    using fetchTheme_try_path by blast
  then show ?thesis using t by simp
qed

text \<open>C3, amended, where the remote serves the number 42.\<close>

theorem fetchTheme_accepts_any_document_witness:
  "fst (initialize (reliable_env [THEME_CONFIG_KEY \<mapsto> ''42'']) fresh_state) = Inr () \<and>
   fetchAndActivate_fault (reliable_env [THEME_CONFIG_KEY \<mapsto> ''42''])
     (clock (snd (initialize (reliable_env [THEME_CONFIG_KEY \<mapsto> ''42'']) fresh_state))) = None \<and>
   remote_template (reliable_env [THEME_CONFIG_KEY \<mapsto> ''42''])
     (clock (snd (initialize (reliable_env [THEME_CONFIG_KEY \<mapsto> ''42'']) fresh_state)))
     THEME_CONFIG_KEY = Some ''42'' \<and>
   JSON_parse ''42'' = Some (JNum 42) \<and>
   fst (fetchTheme (reliable_env [THEME_CONFIG_KEY \<mapsto> ''42'']) fresh_state) = Inr (JNum 42) \<and>
   storage (snd (fetchTheme (reliable_env [THEME_CONFIG_KEY \<mapsto> ''42'']) fresh_state))
     THEME_CACHE_KEY = Some ''42''"
proof -
  let ?e = "reliable_env [THEME_CONFIG_KEY \<mapsto> ''42'']"
  have h1: "fst (initialize ?e fresh_state) = Inr ()"
    by (simp add: initialize_reliable)
  have h2: "fetchAndActivate_fault ?e (clock (snd (initialize ?e fresh_state))) = None"
    by (simp add: reliable_env_def)
  have h3: "remote_template ?e (clock (snd (initialize ?e fresh_state))) THEME_CONFIG_KEY = Some ''42''"
    by (simp add: reliable_env_def)
  have s: "show_int 42 = ''42''"
    by code_simp
  have h4: "JSON_parse ''42'' = Some (JNum 42)"
    using JSON_parse_stringify [of "JNum 42"] by (simp add: s)
  have "setItem_fault ?e (Suc (clock (snd (initialize ?e fresh_state)))) = None"
    by (simp add: reliable_env_def)
  then show ?thesis
    using fetchTheme_accepts_any_document [OF h1 h2 h3 h4] h1 h2 h3 h4 by (simp add: s)
qed

text \<open>
  C4, as stated, fails in its second half: on a first call with an empty cache slot,
  \<^verbatim>\<open>initialize\<close> seeds the default with the text \<^verbatim>\<open>null\<close>, not with \<^verbatim>\<open>DEFAULT_THEME\<close>.
\<close>

theorem initialize_seeds_null_when_cache_empty:
  "\<not> initialized fresh_state \<and>
   storage fresh_state THEME_CACHE_KEY = None \<and>
   fst (initialize (reliable_env Map.empty) fresh_state) = Inr () \<and>
   rc_defaults (snd (initialize (reliable_env Map.empty) fresh_state)) THEME_CONFIG_KEY
     = Some ''null'' \<and>
   ''null'' \<noteq> JSON_stringify DEFAULT_THEME"
  by (simp add: initialize_reliable) (simp add: fresh_state_def DEFAULT_THEME_def)

text \<open>
  C4, amended: a first call of \<^verbatim>\<open>initialize\<close> that succeeds seeds the default of the theme
  key with the text \<^verbatim>\<open>null\<close> when the cache slot is empty, and with the serialisation
  of the cached value when the slot holds one and the read succeeds.
\<close>

theorem initialize_seeds_cached_or_null:
  assumes "\<not> initialized s" and "fst (initialize e s) = Inr ()"
  shows "(storage s THEME_CACHE_KEY = None \<longrightarrow>
            rc_defaults (snd (initialize e s)) THEME_CONFIG_KEY = Some ''null'') \<and>
         (\<forall>c A. storage s THEME_CACHE_KEY = Some c \<and> JSON_parse c = Some A \<and>
                 getItem_fault e (Suc (clock s)) = None \<longrightarrow>
            rc_defaults (snd (initialize e s)) THEME_CONFIG_KEY = Some (JSON_stringify A))"
proof -
  let ?s1 = "logged (SetConfigSettings 0 0) s"
  have st: "storage ?s1 = storage s" and ck: "clock ?s1 = Suc (clock s)"
    by (simp_all add: logged_def clock_def)
  have "storage s THEME_CACHE_KEY = None \<Longrightarrow> cached_value e ?s1 = JNull"
    using st by (rule cached_value_absent)
  moreover have "\<And>c A. storage s THEME_CACHE_KEY = Some c \<Longrightarrow> JSON_parse c = Some A \<Longrightarrow>
      getItem_fault e (Suc (clock s)) = None \<Longrightarrow> cached_value e ?s1 = A"
    using st ck by (simp add: cached_value_storage)
  ultimately show ?thesis
    using initialize_setup_default [OF assms] by auto
qed

text \<open>C4, amended, where the cache slot holds \<^verbatim>\<open>DEFAULT_THEME\<close>.\<close>

theorem initialize_seeds_cached_or_null_witness:
  "\<not> initialized (cached_state DEFAULT_THEME) \<and>
   fst (initialize (reliable_env Map.empty) (cached_state DEFAULT_THEME)) = Inr () \<and>
   storage (cached_state DEFAULT_THEME) THEME_CACHE_KEY = Some (JSON_stringify DEFAULT_THEME) \<and>
   JSON_parse (JSON_stringify DEFAULT_THEME) = Some DEFAULT_THEME \<and>
   getItem_fault (reliable_env Map.empty) (Suc (clock (cached_state DEFAULT_THEME))) = None \<and>
   rc_defaults (snd (initialize (reliable_env Map.empty) (cached_state DEFAULT_THEME)))
     THEME_CONFIG_KEY = Some (JSON_stringify DEFAULT_THEME)"
proof -
  let ?e = "reliable_env Map.empty" and ?s = "cached_state DEFAULT_THEME"
  have h1: "\<not> initialized ?s"
    by (simp add: cached_state_def fresh_state_def)
  have h2: "fst (initialize ?e ?s) = Inr ()"
    by (simp add: initialize_def initialize_setup_def getCachedTheme_eq action_defs collab_defs
        reliable_env_def cached_state_def fresh_state_def)
  have h3: "storage ?s THEME_CACHE_KEY = Some (JSON_stringify DEFAULT_THEME)"
    by (simp add: cached_state_def)
  have h4: "JSON_parse (JSON_stringify DEFAULT_THEME) = Some DEFAULT_THEME"
    using wf_DEFAULT_THEME by (rule JSON_parse_stringify)
  have h5: "getItem_fault ?e (Suc (clock ?s)) = None"
    by (simp add: reliable_env_def)
  show ?thesis
    using initialize_seeds_cached_or_null [OF h1 h2] h1 h2 h3 h4 h5 by blast
qed






text \<open>
  C7: if the cache slot holds the text of a value \<open>A\<close> and the remote serves a string that
  does not parse, \<^verbatim>\<open>fetchTheme\<close> resolves to \<open>A\<close>, the storage is unchanged and no
  \<^verbatim>\<open>setItem\<close> has been called.
\<close>

theorem fetchTheme_malformed_keeps_cache:
  assumes "storage s THEME_CACHE_KEY = Some c"
    and "JSON_parse c = Some A"
    and "\<forall>t. getItem_fault e t = None"
    and "\<forall>t. \<exists>str. remote_template e t THEME_CONFIG_KEY = Some str \<and> JSON_parse str = None"
  shows "fst (fetchTheme e s) = Inr A \<and>
         storage (snd (fetchTheme e s)) = storage s \<and>
         filter is_SetItem (calls (snd (fetchTheme e s))) = filter is_SetItem (calls s)"
proof -
  obtain err where f: "fst (fetchTheme_try e s) = Inl err"
    using fetchTheme_try_unparseable [OF assms(4)] by blast
  let ?s1 = "snd (fetchTheme_try e s)"
  have fr: "storage ?s1 = storage s"
      "filter is_SetItem (calls ?s1) = filter is_SetItem (calls s)"
    using fetchTheme_try_fail_frame [OF f] by simp_all
  have "getItem_fault e (clock ?s1) = None"
    using assms(3) by simp
  with fr(1) have "cached_value e ?s1 = A"
    using assms(1,2) by (rule cached_value_storage)
  then show ?thesis
    using fetchTheme_catch_path [OF f] fr by (simp add: logged_def is_SetItem_def)
qed

text \<open>C7 with \<^verbatim>\<open>DEFAULT_THEME\<close> cached and a remote string with an unquoted key.\<close>

theorem fetchTheme_malformed_keeps_cache_witness:
  "storage (cached_state DEFAULT_THEME) THEME_CACHE_KEY = Some (JSON_stringify DEFAULT_THEME) \<and>
   JSON_parse (JSON_stringify DEFAULT_THEME) = Some DEFAULT_THEME \<and>
   (\<forall>t. getItem_fault (reliable_env [THEME_CONFIG_KEY \<mapsto> ''{colors:'']) t = None) \<and>
   (\<forall>t. \<exists>str. remote_template (reliable_env [THEME_CONFIG_KEY \<mapsto> ''{colors:'']) t
                  THEME_CONFIG_KEY = Some str \<and> JSON_parse str = None) \<and>
   fst (fetchTheme (reliable_env [THEME_CONFIG_KEY \<mapsto> ''{colors:''])
          (cached_state DEFAULT_THEME)) = Inr DEFAULT_THEME \<and>
   storage (snd (fetchTheme (reliable_env [THEME_CONFIG_KEY \<mapsto> ''{colors:''])
                   (cached_state DEFAULT_THEME))) = storage (cached_state DEFAULT_THEME) \<and>
   filter is_SetItem (calls (snd (fetchTheme (reliable_env [THEME_CONFIG_KEY \<mapsto> ''{colors:''])
                                    (cached_state DEFAULT_THEME))))
     = filter is_SetItem (calls (cached_state DEFAULT_THEME))"
proof -
  let ?e = "reliable_env [THEME_CONFIG_KEY \<mapsto> ''{colors:'']" and ?s = "cached_state DEFAULT_THEME"
  have h1: "storage ?s THEME_CACHE_KEY = Some (JSON_stringify DEFAULT_THEME)"
    by (simp add: cached_state_def)
  have h2: "JSON_parse (JSON_stringify DEFAULT_THEME) = Some DEFAULT_THEME"
    using wf_DEFAULT_THEME by (rule JSON_parse_stringify)
  have h3: "\<forall>t. getItem_fault ?e t = None"
    by (simp add: reliable_env_def)
  have bad: "JSON_parse ''{colors:'' = None"
    by code_simp
  have h4: "\<forall>t. \<exists>str. remote_template ?e t THEME_CONFIG_KEY = Some str \<and> JSON_parse str = None"
    by (simp add: reliable_env_def bad)
  show ?thesis
    using fetchTheme_malformed_keeps_cache [OF h1 h2 h3 h4] h1 h2 h3 h4 by blast
qed

text \<open>
  C8: if, on a call of \<^verbatim>\<open>initialize\<close> with the flag false, \<^verbatim>\<open>setConfigSettings\<close> rejects, or
  it resolves and \<^verbatim>\<open>setDefaults\<close> rejects, then \<^verbatim>\<open>initialize\<close> rejects with that error, the
  flag is still false and the cache is untouched; and a next call whose two steps do not
  reject makes the three collaborator calls of the setup again and sets the flag.
\<close>

theorem initialize_failing_step:
  assumes "\<not> initialized s"
    and "setConfigSettings_fault e (clock s) = Some err \<or>
         (setConfigSettings_fault e (clock s) = None \<and>
          setDefaults_fault e (clock s + 2) = Some err)"
  shows "fst (initialize e s) = Inl err \<and>
         \<not> initialized (snd (initialize e s)) \<and>
         storage (snd (initialize e s)) = storage s \<and>
         (setConfigSettings_fault e (clock (snd (initialize e s))) = None \<and>
          setDefaults_fault e (clock (snd (initialize e s)) + 2) = None \<longrightarrow>
            fst (initialize e (snd (initialize e s))) = Inr () \<and>
            initialized (snd (initialize e (snd (initialize e s)))) \<and>
            (\<exists>d. calls (snd (initialize e (snd (initialize e s)))) =
                   calls (snd (initialize e s)) @
                     [SetConfigSettings 0 0, GetItem THEME_CACHE_KEY,
                      SetDefaults THEME_CONFIG_KEY d]))"
proof -
  have a: "fst (initialize e s) = Inl err \<and> \<not> initialized (snd (initialize e s))"
    using assms
    by (auto simp: initialize_def initialize_setup_def getCachedTheme_eq action_defs collab_defs
        split: option.splits)
  have b: "storage (snd (initialize e s)) = storage s"
    using initialize_frame [of e s] by simp
  let ?s1 = "snd (initialize e s)"
  have c: "setConfigSettings_fault e (clock ?s1) = None \<Longrightarrow>
      setDefaults_fault e (clock ?s1 + 2) = None \<Longrightarrow>
      fst (initialize e ?s1) = Inr () \<and> initialized (snd (initialize e ?s1)) \<and>
      (\<exists>d. calls (snd (initialize e ?s1)) =
             calls ?s1 @ [SetConfigSettings 0 0, GetItem THEME_CACHE_KEY,
                          SetDefaults THEME_CONFIG_KEY d])"
    using a
    by (simp add: initialize_def initialize_setup_def getCachedTheme_eq action_defs collab_defs)
  show ?thesis using a b c by blast
qed

text \<open>C8 where \<^verbatim>\<open>setDefaults\<close> rejects the first time and not the second.\<close>

theorem initialize_failing_step_witness:
  "\<not> initialized fresh_state \<and>
   setConfigSettings_fault
     ((reliable_env Map.empty)\<lparr>setDefaults_fault := (\<lambda>t. if t = 2 then Some NonError else None)\<rparr>)
     (clock fresh_state) = None \<and>
   setDefaults_fault
     ((reliable_env Map.empty)\<lparr>setDefaults_fault := (\<lambda>t. if t = 2 then Some NonError else None)\<rparr>)
     (clock fresh_state + 2) = Some NonError \<and>
   fst (initialize
     ((reliable_env Map.empty)\<lparr>setDefaults_fault := (\<lambda>t. if t = 2 then Some NonError else None)\<rparr>)
     fresh_state) = Inl NonError \<and>
   \<not> initialized (snd (initialize
     ((reliable_env Map.empty)\<lparr>setDefaults_fault := (\<lambda>t. if t = 2 then Some NonError else None)\<rparr>)
     fresh_state)) \<and>
   initialized (snd (initialize
     ((reliable_env Map.empty)\<lparr>setDefaults_fault := (\<lambda>t. if t = 2 then Some NonError else None)\<rparr>)
     (snd (initialize
       ((reliable_env Map.empty)\<lparr>setDefaults_fault := (\<lambda>t. if t = 2 then Some NonError else None)\<rparr>)
       fresh_state))))"
proof -
  let ?e = "(reliable_env Map.empty)\<lparr>setDefaults_fault := (\<lambda>t. if t = 2 then Some NonError else None)\<rparr>"
  have h1: "\<not> initialized fresh_state" by (simp add: fresh_state_def)
  have h2: "setConfigSettings_fault ?e (clock fresh_state) = Some NonError \<or>
     (setConfigSettings_fault ?e (clock fresh_state) = None \<and>
      setDefaults_fault ?e (clock fresh_state + 2) = Some NonError)"
    by (simp add: reliable_env_def fresh_state_def clock_def)
  note t = initialize_failing_step [OF h1 h2]
  have c: "clock (snd (initialize ?e fresh_state)) = 3"
    by (simp add: initialize_def initialize_setup_def getCachedTheme_eq action_defs collab_defs
        reliable_env_def fresh_state_def)
  have r: "setConfigSettings_fault ?e (clock (snd (initialize ?e fresh_state))) = None \<and>
          setDefaults_fault ?e (clock (snd (initialize ?e fresh_state)) + 2) = None"
    by (simp add: c) (simp add: reliable_env_def)
  show ?thesis
    using t r h1 by (simp add: reliable_env_def fresh_state_def clock_def)
qed

text \<open>
  C9, as stated, fails: two calls of \<^verbatim>\<open>initialize\<close> made before either completes, resumed
  in turn, both pass the guard and both call \<^verbatim>\<open>setDefaults\<close>: the seeding is done twice.
\<close>

theorem initialize_two_overlapping_calls_seed_twice:
  "seedings fresh_state = 0 \<and>
   run_schedule (reliable_env Map.empty) [0, 1, 0, 1, 0, 1]
       ([initialize_begin fresh_state, initialize_begin fresh_state], fresh_state)
     = ([Settled (Inr ()), Settled (Inr ())],
        fresh_state\<lparr>initialized := True, rc_settings := Some (0, 0),
          rc_defaults := [THEME_CONFIG_KEY \<mapsto> ''null''],
          calls := [SetConfigSettings 0 0, SetConfigSettings 0 0,
                    GetItem THEME_CACHE_KEY, GetItem THEME_CACHE_KEY,
                    SetDefaults THEME_CONFIG_KEY ''null'', SetDefaults THEME_CONFIG_KEY ''null'']\<rparr>) \<and>
   seedings (snd (run_schedule (reliable_env Map.empty) [0, 1, 0, 1, 0, 1]
       ([initialize_begin fresh_state, initialize_begin fresh_state], fresh_state))) = 2"
  by (simp add: initialize_begin_def getCachedTheme_eq cached_value_def collab_defs
      reliable_env_def fresh_state_def seedings_def is_SetDefaults_def)

text \<open>
  C9, amended: for every \<open>N > 0\<close>, when \<^verbatim>\<open>initialize\<close> is called \<open>N\<close> times before any
  call completes, and the collaborators do not reject, then under every schedule that
  settles all the calls the seeding is done \<open>N\<close> times, once by each call; a call made
  after that finds the flag set and does nothing.
\<close>

theorem initialize_overlapping_calls_each_seed:
  assumes "\<forall>t. setConfigSettings_fault e t = None"
    and "\<forall>t. setDefaults_fault e t = None"
    and "\<not> initialized s"
    and "0 < N"
    and "list_all is_Settled (fst (run_schedule e sched (replicate N (initialize_begin s), s)))"
  shows "seedings (snd (run_schedule e sched (replicate N (initialize_begin s), s))) = seedings s + N \<and>
         initialize e (snd (run_schedule e sched (replicate N (initialize_begin s), s))) =
           (Inr (), snd (run_schedule e sched (replicate N (initialize_begin s), s)))"
proof -
  let ?start = "replicate N (initialize_begin s)"
  let ?r = "run_schedule e sched (?start, s)"
  have b: "initialize_begin s = Awaiting_setConfigSettings"
    using assms(3) by (simp add: initialize_begin_def)
  have n: "sum_list (map pending ?start) = N"
    by (simp add: b pending_def is_Settled_def sum_list_replicate)
  have z: "sum_list (map pending (fst ?r)) = 0"
    using assms(5) by (simp add: list_all_iff pending_def)
  have "seedings (snd ?r) + sum_list (map pending (fst ?r)) =
      seedings s + sum_list (map pending ?start)"
    by (rule run_schedule_count [OF assms(1,2)])
  then have "seedings (snd ?r) + 0 = seedings s + N"
    by (simp only: z n)
  then have count: "seedings (snd ?r) = seedings s + N"
    by simp
  have "settled_ok ?start s"
    by (simp add: settled_ok_def b list_all_iff)
  then have ok: "settled_ok (fst ?r) (snd ?r)"
    by (rule run_schedule_settled_ok [OF assms(1,2)])
  have "length (fst ?r) = N"
    by (simp add: run_schedule_length)
  then obtain t where t: "t \<in> set (fst ?r)"
    using assms(4) by (cases "fst ?r") auto
  then have "is_Settled t"
    using assms(5) by (simp add: list_all_iff)
  then have "initialized (snd ?r)"
    using ok t by (auto simp: settled_ok_def list_all_iff is_Settled_def split: init_task.splits)
  then show ?thesis
    using count by (simp add: initialize_def)
qed

text \<open>C9, amended, for three calls.\<close>

theorem initialize_overlapping_calls_each_seed_witness:
  "(\<forall>t. setConfigSettings_fault (reliable_env Map.empty) t = None) \<and>
   (\<forall>t. setDefaults_fault (reliable_env Map.empty) t = None) \<and>
   \<not> initialized fresh_state \<and>
   (0::nat) < 3 \<and>
   list_all is_Settled
     (fst (run_schedule (reliable_env Map.empty) [0, 1, 2, 2, 1, 0, 1, 1, 0, 2]
             (replicate 3 (initialize_begin fresh_state), fresh_state))) \<and>
   seedings (snd (run_schedule (reliable_env Map.empty) [0, 1, 2, 2, 1, 0, 1, 1, 0, 2]
                    (replicate 3 (initialize_begin fresh_state), fresh_state)))
     = seedings fresh_state + 3"
proof -
  let ?e = "reliable_env Map.empty"
  have h1: "\<forall>t. setConfigSettings_fault ?e t = None" by (simp add: reliable_env_def)
  have h2: "\<forall>t. setDefaults_fault ?e t = None" by (simp add: reliable_env_def)
  have h3: "\<not> initialized fresh_state" by (simp add: fresh_state_def)
  have h4: "(0::nat) < 3" by simp
  have h5: "list_all is_Settled
     (fst (run_schedule ?e [0, 1, 2, 2, 1, 0, 1, 1, 0, 2]
             (replicate 3 (initialize_begin fresh_state), fresh_state)))"
    by (simp add: numeral_3_eq_3 initialize_begin_def getCachedTheme_eq cached_value_def
        collab_defs reliable_env_def fresh_state_def is_Settled_def)
  show ?thesis
    using initialize_overlapping_calls_each_seed [OF h1 h2 h3 h4 h5] h1 h2 h3 h5 by simp
qed

text \<open>
  C10, as stated, fails in its closing sentence: the remote serves a document with one colour
  only, \<^verbatim>\<open>fetchTheme\<close> resolves to it, it is truthy, and \<^verbatim>\<open>refreshTheme\<close> makes it the current
  theme with \<^verbatim>\<open>error\<close> null and \<^verbatim>\<open>isLoading\<close> false: observers see a theme that is not
  fully populated, in the non-error state.
\<close>

theorem refreshTheme_installs_partial_theme:
  "theme (fst (refreshTheme (reliable_env [THEME_CONFIG_KEY \<mapsto> JSON_stringify partial_theme])
                 (provider_init, fresh_state))) = partial_theme \<and>
   \<not> is_Theme (theme (fst (refreshTheme
                 (reliable_env [THEME_CONFIG_KEY \<mapsto> JSON_stringify partial_theme])
                 (provider_init, fresh_state)))) \<and>
   error (fst (refreshTheme (reliable_env [THEME_CONFIG_KEY \<mapsto> JSON_stringify partial_theme])
                 (provider_init, fresh_state))) = None \<and>
   \<not> isLoading (fst (refreshTheme (reliable_env [THEME_CONFIG_KEY \<mapsto> JSON_stringify partial_theme])
                 (provider_init, fresh_state)))"
proof -
  let ?e = "reliable_env [THEME_CONFIG_KEY \<mapsto> JSON_stringify partial_theme]"
  have "fst (fetchTheme ?e fresh_state) = Inr partial_theme"
    using fetchTheme_partial_theme by simp
  moreover have "truthy partial_theme"
    by (simp add: partial_theme_def)
  ultimately show ?thesis
    using not_Theme_partial_theme
    by (cases "fetchTheme ?e fresh_state") (simp add: refreshTheme_def)
qed

text \<open>
  C10, amended: whenever \<^verbatim>\<open>fetchTheme\<close> resolves, \<^verbatim>\<open>refreshTheme\<close> finishes with \<^verbatim>\<open>error\<close>
  null and \<^verbatim>\<open>isLoading\<close> false; the current theme is \<^verbatim>\<open>DEFAULT_THEME\<close> when the value is
  falsy and the value itself when it is truthy. So observers see a fully populated theme
  exactly when the value is falsy or is itself one.
\<close>

theorem refreshTheme_after_fetch:
  assumes "fst (fetchTheme e s) = Inr newTheme"
  shows "theme (fst (refreshTheme e (p, s))) = (if truthy newTheme then newTheme else DEFAULT_THEME) \<and>
         error (fst (refreshTheme e (p, s))) = None \<and>
         \<not> isLoading (fst (refreshTheme e (p, s))) \<and>
         (is_Theme (theme (fst (refreshTheme e (p, s)))) \<longleftrightarrow>
            (truthy newTheme \<longrightarrow> is_Theme newTheme))"
  using assms is_Theme_DEFAULT_THEME
  by (cases "fetchTheme e s") (simp add: refreshTheme_def)

text \<open>C10, amended, at the offline world with nothing cached, where \<^verbatim>\<open>fetchTheme\<close> resolves to \<^verbatim>\<open>null\<close>.\<close>

theorem refreshTheme_after_fetch_witness:
  "fst (fetchTheme offline_env fresh_state) = Inr JNull \<and>
   \<not> truthy JNull \<and>
   theme (fst (refreshTheme offline_env (provider_init, fresh_state))) = DEFAULT_THEME \<and>
   is_Theme (theme (fst (refreshTheme offline_env (provider_init, fresh_state)))) \<and>
   error (fst (refreshTheme offline_env (provider_init, fresh_state))) = None \<and>
   \<not> isLoading (fst (refreshTheme offline_env (provider_init, fresh_state)))"
proof -
  have h1: "fst (fetchTheme offline_env fresh_state) = Inr JNull"
    using fetchTheme_catch_path [OF offline_try_fails, of fresh_state]
      cached_value_absent [of "snd (fetchTheme_try offline_env fresh_state)" fresh_state offline_env]
      fetchTheme_try_fail_frame [OF offline_try_fails, of fresh_state]
    by (simp add: fresh_state_def)
  show ?thesis
    using refreshTheme_after_fetch [OF h1, of provider_init] h1 is_Theme_DEFAULT_THEME by simp
qed

end
